theory Spec2Isabelle
  imports Main "HOL-Library.Word"
begin

section \<open>BedFragments: the gzip text-line fragment reader\<close>

text \<open>
  Source: \<^verbatim>\<open>src/fragmentIterators/BedFragments.cpp\<close>.

  The gzip stream is kept as the list of chunks that successive \<^verbatim>\<open>gzgets\<close> calls
  return (one per text line, the newline included), together with a flag telling
  whether the stream breaks off with a read error instead of a clean end of file.
  \<^verbatim>\<open>line_buf\<close> is the C string held in the line buffer: the characters before its
  terminating NUL.  All \<^verbatim>\<open>uint32_t\<close> values are 32-bit words.
\<close>

type_synonym u32 = "32 word"

datatype bed_error =
    ReadError     \<comment> \<open>\<^verbatim>\<open>runtime_error("Error reading from gzfile")\<close>\<close>
  | InvalidTSV    \<comment> \<open>\<^verbatim>\<open>runtime_error("Invalid TSV file")\<close>\<close>
  | SortError     \<comment> \<open>\<^verbatim>\<open>runtime_error("TSV not in sorted order by chr, start")\<close>\<close>
  | LookupError   \<comment> \<open>\<^verbatim>\<open>std::out_of_range\<close> of \<^verbatim>\<open>chr_lookup.at\<close>\<close>
  | SeekError     \<comment> \<open>\<^verbatim>\<open>invalid_argument("Cannot seek BedFragments")\<close>\<close>
  | OpenError     \<comment> \<open>\<^verbatim>\<open>invalid_argument("Could not open file")\<close>\<close>

record bed =
  gz_lines :: "string list"
  gz_broken :: bool
  line_buf :: string
  eof :: bool
  chr_names :: "string list"
  cell_names :: "string list"
  chr_lookup :: "string \<rightharpoonup> u32"
  cell_id_lookup :: "string \<rightharpoonup> u32"
  next_chr_id :: u32
  next_cell_id :: u32
  current_chr :: string
  comment :: string
  last_start :: u32

text \<open>One slot of a \<^verbatim>\<open>FragmentArray\<close>: the entries of its three parallel arrays
  \<^verbatim>\<open>start\<close>, \<^verbatim>\<open>end\<close>, \<^verbatim>\<open>cell\<close> at one index.\<close>

type_synonym frag = "u32 \<times> u32 \<times> u32"

definition chrCount :: "bed \<Rightarrow> int" where
  "chrCount st = -1"

definition cellCount :: "bed \<Rightarrow> int" where
  "cellCount st = -1"

text \<open>\<^verbatim>\<open>chrNames\<close> and \<^verbatim>\<open>cellNames\<close> return a C string or \<^verbatim>\<open>NULL\<close>; \<^verbatim>\<open>NULL\<close> is \<open>None\<close>.
  The 32-bit identifier is compared with the vector's size.\<close>

definition chrNames :: "bed \<Rightarrow> u32 \<Rightarrow> string option" where
  "chrNames st chr_id =
     (if unat chr_id \<ge> length (chr_names st) then None
      else Some (chr_names st ! unat chr_id))"

definition cellNames :: "bed \<Rightarrow> u32 \<Rightarrow> string option" where
  "cellNames st cell_id =
     (if unat cell_id \<ge> length (cell_names st) then None
      else Some (cell_names st ! unat cell_id))"

definition currentChr :: "bed \<Rightarrow> bed_error + u32" where
  "currentChr st =
     (case chr_lookup st (current_chr st) of
        None \<Rightarrow> Inl LookupError
      | Some i \<Rightarrow> Inr i)"

definition isSeekable :: "bed \<Rightarrow> bool" where
  "isSeekable st = False"

definition seek :: "bed \<Rightarrow> u32 \<Rightarrow> u32 \<Rightarrow> bed_error + bed" where
  "seek st chr_id base = Inl SeekError"

subsection \<open>Scanning a line\<close>

definition NUL :: char where "NUL = CHR 0x00"
definition TAB :: char where "TAB = CHR 0x09"
definition NL :: char where "NL = CHR 0x0A"

text \<open>The character a \<^verbatim>\<open>const char *\<close> points at: the head of the remaining C string, or
  the terminating NUL when nothing remains.\<close>

definition peek :: "string \<Rightarrow> char" where
  "peek s = (case s of [] \<Rightarrow> NUL | c # _ \<Rightarrow> c)"

definition is_sep :: "char \<Rightarrow> bool" where
  "is_sep c = (c = NUL \<or> c = TAB \<or> c = NL)"

text \<open>\<^verbatim>\<open>nextField(c)\<close> advances to the first NUL, tab or newline; the result is the
  remaining string from that character on.  \<open>field_text\<close> is what lies in between:
  \<^verbatim>\<open>std::string(cur_field, next_field - cur_field)\<close>.\<close>

definition nextField :: "string \<Rightarrow> string" where
  "nextField c = dropWhile (\<lambda>x. \<not> is_sep x) c"

definition field_text :: "string \<Rightarrow> string" where
  "field_text c = takeWhile (\<lambda>x. \<not> is_sep x) c"

text \<open>C's \<^verbatim>\<open>atoi\<close>: leading white space, an optional sign, then decimal digits.  The
  result is the mathematical value; C leaves it undefined beyond the range of \<^verbatim>\<open>int\<close>.\<close>

definition isdigit :: "char \<Rightarrow> bool" where
  "isdigit c = (48 \<le> (of_char c :: nat) \<and> (of_char c :: nat) \<le> 57)"

definition isspace :: "char \<Rightarrow> bool" where
  "isspace c = ((of_char c :: nat) = 32 \<or> (9 \<le> (of_char c :: nat) \<and> (of_char c :: nat) \<le> 13))"

fun digits_val :: "int \<Rightarrow> string \<Rightarrow> int" where
  "digits_val acc [] = acc"
| "digits_val acc (c # cs) =
     (if isdigit c then digits_val (10 * acc + (int (of_char c) - 48)) cs else acc)"

definition atoi :: "string \<Rightarrow> int" where
  "atoi s =
     (case dropWhile isspace s of
        [] \<Rightarrow> 0
      | c # cs \<Rightarrow>
          if c = CHR ''-'' then - digits_val 0 cs
          else if c = CHR ''+'' then digits_val 0 cs
          else digits_val 0 (c # cs))"

definition validInt :: "string \<Rightarrow> bool" where
  "validInt c = list_all isdigit (field_text c)"

subsection \<open>Reading and parsing\<close>

text \<open>\<^verbatim>\<open>read_line\<close>: \<^verbatim>\<open>gzgets\<close> returns \<^verbatim>\<open>NULL\<close> when no character could be read and then
  leaves the buffer untouched.  The first such return at the end of the file only sets
  \<^verbatim>\<open>eof\<close> and still answers \<^verbatim>\<open>true\<close>; the second empties the buffer and answers
  \<^verbatim>\<open>false\<close>.\<close>

definition read_line :: "bed \<Rightarrow> bed_error + (bool \<times> bed)" where
  "read_line st =
     (case gz_lines st of
        l # ls \<Rightarrow> Inr (True, st\<lparr>gz_lines := ls, line_buf := l\<rparr>)
      | [] \<Rightarrow>
          if eof st then Inr (False, st\<lparr>line_buf := []\<rparr>)
          else if gz_broken st then Inl ReadError
          else Inr (True, st\<lparr>eof := True\<rparr>))"

text \<open>\<^verbatim>\<open>parse_line\<close> returns the chromosome name; \<open>start\<close>, \<open>end\<close> and \<open>cell_id\<close> are
  reference parameters, passed in as the slot \<open>out\<close> and returned updated.  On the
  early return for an empty first field they come back untouched.\<close>

definition parse_line :: "bed \<Rightarrow> frag \<Rightarrow> bed_error + (string \<times> frag \<times> bed)" where
  "parse_line st out =
     (let cur0 = line_buf st; next0 = nextField cur0; chr = field_text cur0 in
      if chr = [] then Inr (chr, out, st)
      else if peek next0 \<noteq> TAB then Inl InvalidTSV
      else
        let cur1 = tl next0; next1 = nextField cur1 in
        if field_text cur1 = [] \<or> peek next1 \<noteq> TAB then Inl InvalidTSV
        else
          let start = (word_of_int (atoi cur1) :: u32);
              cur2 = tl next1; next2 = nextField cur2 in
          if field_text cur2 = [] \<or> peek next2 \<noteq> TAB then Inl InvalidTSV
          else
            let end = (word_of_int (atoi cur2) :: u32);
                cur3 = tl next2; name = field_text cur3 in
            (case cell_id_lookup st name of
               None \<Rightarrow>
                 Inr (chr, (start, end, next_cell_id st),
                      st\<lparr>cell_id_lookup := (cell_id_lookup st)(name \<mapsto> next_cell_id st),
                         cell_names := cell_names st @ [name],
                         next_cell_id := next_cell_id st + 1\<rparr>)
             | Some k \<Rightarrow> Inr (chr, (start, end, k), st)))"

lemma parse_line_stream:
  "parse_line st out = Inr (chr, fr, st') \<Longrightarrow>
     gz_lines st' = gz_lines st \<and> eof st' = eof st"
  by (auto simp: parse_line_def Let_def split: if_splits option.splits)

lemma read_line_measure:
  "read_line st = Inr (True, st') \<Longrightarrow>
     2 * length (gz_lines st') + (if eof st' then 0 else 1)
       < 2 * length (gz_lines st) + (if eof st then 0 else (1::nat))"
  by (auto simp: read_line_def split: list.splits if_splits)

text \<open>The comment loop of \<^verbatim>\<open>restart\<close>: lines that start with the comment prefix are read
  past.  \<open>take (length (comment st)) (line_buf st) = comment st\<close> is the character-wise
  comparison of the loop over \<open>i < comment.size()\<close> (the comparison stops at the
  buffer's terminating NUL, which is no character of the prefix).\<close>

function skip_comments :: "bed \<Rightarrow> bed_error + bed" where
  "skip_comments st =
     (if peek (line_buf st) = NUL then Inr st
      else if take (length (comment st)) (line_buf st) \<noteq> comment st then Inr st
      else (case read_line st of
              Inl e \<Rightarrow> Inl e
            | Inr (got, st1) \<Rightarrow> skip_comments st1))"
  by pat_completeness auto
termination
  by (relation "measure (\<lambda>st. 2 * (2 * length (gz_lines st) + (if eof st then 0 else 1))
                                + (if line_buf st = [] then 0 else 1))")
     (auto simp: read_line_def peek_def split: list.splits if_splits)


text \<open>\<^verbatim>\<open>restart\<close> reopens the file: \<open>file\<close> is what \<^verbatim>\<open>gzopen\<close> finds at the path, \<open>None\<close>
  when it cannot be opened.  The value of the first \<^verbatim>\<open>read_line\<close> is not looked at.\<close>

definition restart :: "(string list \<times> bool) option \<Rightarrow> bed \<Rightarrow> bed_error + bed" where
  "restart file st =
     (case file of
        None \<Rightarrow> Inl OpenError
      | Some (ls, broken) \<Rightarrow>
          (case read_line (st\<lparr>gz_lines := ls, gz_broken := broken\<rparr>) of
             Inl e \<Rightarrow> Inl e
           | Inr (got, st1) \<Rightarrow>
               if length (comment st1) = 0 then Inr st1
               else (case skip_comments st1 of
                       Inl e \<Rightarrow> Inl e
                     | Inr st2 \<Rightarrow> Inr (st2\<lparr>current_chr := []\<rparr>))))"

text \<open>The constructor sets the counters and the comment prefix and calls \<^verbatim>\<open>restart\<close>.
  The containers start empty.  The members \<^verbatim>\<open>eof\<close> and \<^verbatim>\<open>line_buf\<close> are declared in
  \<^verbatim>\<open>BedFragments.h\<close>, which is not among the sources: \<^verbatim>\<open>eof\<close> is taken to start
  \<^verbatim>\<open>false\<close> and the buffer to start as the empty C string.\<close>

definition BedFragments :: "(string list \<times> bool) option \<Rightarrow> string \<Rightarrow> bed_error + bed" where
  "BedFragments file comment_prefix =
     restart file
       \<lparr>gz_lines = [], gz_broken = False, line_buf = [], eof = False,
        chr_names = [], cell_names = [], chr_lookup = Map.empty, cell_id_lookup = Map.empty,
        next_chr_id = 0, next_cell_id = 0, current_chr = [], comment = comment_prefix,
        last_start = 0\<rparr>"

subsection \<open>nextChr and load\<close>

text \<open>The \<^verbatim>\<open>while(true)\<close> loop of \<^verbatim>\<open>nextChr\<close>.  It is left either by \<^verbatim>\<open>break\<close>
  (\<open>True\<close>: a line of another chromosome, or an empty first field, is in the buffer) or
  by \<^verbatim>\<open>return false\<close> (\<open>False\<close>).  The three dummy variables are uninitialised in the
  source; they are read only after \<^verbatim>\<open>parse_line\<close> has assigned them.\<close>

function nextChr_loop :: "bed \<Rightarrow> bed_error + (bool \<times> bed)" where
  "nextChr_loop st =
     (case parse_line st (0, 0, 0) of
        Inl e \<Rightarrow> Inl e
      | Inr (chr, (dummy_start, dummy_end, dummy_cell), st1) \<Rightarrow>
          if chr = [] \<or> chr \<noteq> current_chr st1 then Inr (True, st1\<lparr>current_chr := chr\<rparr>)
          else if dummy_start < last_start st1 then Inl SortError
          else (case read_line (st1\<lparr>last_start := dummy_start\<rparr>) of
                  Inl e \<Rightarrow> Inl e
                | Inr (got, st2) \<Rightarrow> if \<not> got then Inr (False, st2) else nextChr_loop st2))"
  by pat_completeness auto
termination
  by (relation "measure (\<lambda>st. 2 * length (gz_lines st) + (if eof st then 0 else 1))")
     (auto dest!: parse_line_stream simp: read_line_def split: list.splits if_splits)

definition nextChr :: "bed \<Rightarrow> bed_error + (bool \<times> bed)" where
  "nextChr st =
     (if peek (line_buf st) = NUL \<or> peek (line_buf st) = NL then Inr (False, st)
      else
        (case nextChr_loop st of
           Inl e \<Rightarrow> Inl e
         | Inr (broke, st1) \<Rightarrow>
             if \<not> broke then Inr (False, st1)
             else
               (case chr_lookup st1 (current_chr st1) of
                  None \<Rightarrow>
                    Inr (True,
                         st1\<lparr>chr_lookup := (chr_lookup st1)(current_chr st1 \<mapsto> next_chr_id st1),
                             chr_names := chr_names st1 @ [current_chr st1],
                             next_chr_id := next_chr_id st1 + 1,
                             last_start := 0\<rparr>)
                | Some k \<Rightarrow> Inl SortError)))"

text \<open>The \<^verbatim>\<open>for\<close> loop of \<^verbatim>\<open>load\<close> from index \<open>i\<close> on.  Slot \<open>i\<close> of the buffer is
  handed to \<^verbatim>\<open>parse_line\<close> by reference, so whatever it assigns stays in the buffer also
  when the loop returns \<open>i\<close>.  The source requires \<open>count\<close> slots in the buffer.\<close>

function load_loop :: "nat \<Rightarrow> nat \<Rightarrow> frag list \<Rightarrow> bed \<Rightarrow> bed_error + (nat \<times> frag list \<times> bed)" where
  "load_loop count i buffer st =
     (if i < count then
        (case parse_line st (buffer ! i) of
           Inl e \<Rightarrow> Inl e
         | Inr (chr, fr, st1) \<Rightarrow>
             if chr = [] \<or> chr \<noteq> current_chr st1 then Inr (i, buffer[i := fr], st1)
             else if fst fr < last_start st1 then Inl SortError
             else (case read_line (st1\<lparr>last_start := fst fr\<rparr>) of
                     Inl e \<Rightarrow> Inl e
                   | Inr (got, st2) \<Rightarrow>
                       if \<not> got then Inr (i, buffer[i := fr], st2)
                       else load_loop count (i + 1) (buffer[i := fr]) st2))
      else Inr (count, buffer, st))"
  by pat_completeness auto
termination
  by (relation "measure (\<lambda>(count, i, buffer, st). count - i)") auto

text \<open>\<^verbatim>\<open>load\<close> takes a \<^verbatim>\<open>uint32_t\<close> count and returns an \<^verbatim>\<open>int32_t\<close>: the number of
  fragments is narrowed to 32 bits and read as a signed value.\<close>

definition load :: "u32 \<Rightarrow> frag list \<Rightarrow> bed \<Rightarrow> bed_error + (int \<times> frag list \<times> bed)" where
  "load count buffer st =
     (case load_loop (unat count) 0 buffer st of
        Inl e \<Rightarrow> Inl e
      | Inr (n, buffer1, st1) \<Rightarrow> Inr (sint (word_of_nat n :: 32 word), buffer1, st1))"

subsection \<open>A consumer of the iterator protocol\<close>

text \<open>The protocol's consumer: \<^verbatim>\<open>nextChr()\<close> until it answers \<^verbatim>\<open>false\<close>, and after each
  \<^verbatim>\<open>true\<close> \<^verbatim>\<open>load(capacity, buffer)\<close> until it returns no fragment.  Every fragment
  delivered is recorded with \<^verbatim>\<open>currentChr()\<close>.  The buffer has \<open>capacity\<close> slots and is
  reused from call to call.  Both loops run on fuel, so that a run that does not end is
  \<open>None\<close>; an error is recorded with the call that raised it.\<close>

datatype raised_by = ByNextChr | ByCurrentChr | ByLoad

type_synonym delivered = "u32 \<times> u32 \<times> u32 \<times> u32"

fun drain :: "nat \<Rightarrow> u32 \<Rightarrow> u32 \<Rightarrow> frag list \<Rightarrow> bed \<Rightarrow> delivered list
                \<Rightarrow> (bed_error + (delivered list \<times> frag list \<times> bed)) option" where
  "drain 0 capacity chr_id buffer st acc = None"
| "drain (Suc fuel) capacity chr_id buffer st acc =
     (case load capacity buffer st of
        Inl e \<Rightarrow> Some (Inl e)
      | Inr (n, buffer1, st1) \<Rightarrow>
          if n \<le> 0 then Some (Inr (acc, buffer1, st1))
          else drain fuel capacity chr_id buffer1 st1
                 (acc @ map (\<lambda>(s, e, c). (chr_id, s, e, c)) (take (nat n) buffer1)))"

fun iterate :: "nat \<Rightarrow> u32 \<Rightarrow> frag list \<Rightarrow> bed \<Rightarrow> delivered list
                  \<Rightarrow> ((raised_by \<times> bed_error) + (delivered list \<times> bed)) option" where
  "iterate 0 capacity buffer st acc = None"
| "iterate (Suc fuel) capacity buffer st acc =
     (case nextChr st of
        Inl e \<Rightarrow> Some (Inl (ByNextChr, e))
      | Inr (more_chr, st1) \<Rightarrow>
          if \<not> more_chr then Some (Inr (acc, st1))
          else
            (case currentChr st1 of
               Inl e \<Rightarrow> Some (Inl (ByCurrentChr, e))
             | Inr chr_id \<Rightarrow>
                 (case drain fuel capacity chr_id buffer st1 acc of
                    None \<Rightarrow> None
                  | Some (Inl e) \<Rightarrow> Some (Inl (ByLoad, e))
                  | Some (Inr (acc1, buffer1, st2)) \<Rightarrow> iterate fuel capacity buffer1 st2 acc1)))"

text \<open>Reading a whole file: construct the reader, then consume it.\<close>

definition read_bed :: "nat \<Rightarrow> u32 \<Rightarrow> (string list \<times> bool) option \<Rightarrow> string
                          \<Rightarrow> ((raised_by \<times> bed_error) + (delivered list \<times> bed)) option" where
  "read_bed fuel capacity file comment_prefix =
     (case BedFragments file comment_prefix of
        Inl e \<Rightarrow> Some (Inl (ByNextChr, e))
      | Inr st \<Rightarrow> iterate fuel capacity (replicate (unat capacity) (0, 0, 0)) st [])"

subsection \<open>Well-formed input\<close>

text \<open>A data line of a fragment file: the chromosome, the start and the end as decimal
  digits, the cell barcode, and whatever follows (nothing, the newline, or a tab and
  further columns).  \<open>line_text\<close> is the line as \<^verbatim>\<open>gzgets\<close> returns it.\<close>

record data_line =
  dl_chrom :: string
  dl_start :: string
  dl_end :: string
  dl_cell :: string
  dl_tail :: string

definition line_text :: "data_line \<Rightarrow> string" where
  "line_text r =
     dl_chrom r @ TAB # dl_start r @ TAB # dl_end r @ TAB # dl_cell r @ dl_tail r"

definition data_line_ok :: "data_line \<Rightarrow> bool" where
  "data_line_ok r \<longleftrightarrow>
     dl_chrom r \<noteq> [] \<and> list_all (\<lambda>c. \<not> is_sep c) (dl_chrom r) \<and>
     dl_start r \<noteq> [] \<and> list_all isdigit (dl_start r) \<and>
     dl_end r \<noteq> [] \<and> list_all isdigit (dl_end r) \<and>
     list_all (\<lambda>c. \<not> is_sep c) (dl_cell r) \<and>
     is_sep (peek (dl_tail r))"

text \<open>The coordinates of a data line as the reader stores them in \<^verbatim>\<open>uint32_t\<close>.\<close>

definition start_of :: "data_line \<Rightarrow> u32" where
  "start_of r = word_of_int (atoi (dl_start r))"



fun starts_sorted :: "data_line list \<Rightarrow> bool" where
  "starts_sorted [] = True"
| "starts_sorted [r] = True"
| "starts_sorted (r # r' # rs) =
     ((dl_chrom r \<noteq> dl_chrom r' \<or> start_of r \<le> start_of r') \<and> starts_sorted (r' # rs))"




subsection \<open>Positions of the reader in its input\<close>


definition interned :: "bed \<Rightarrow> string \<Rightarrow> bed" where
  "interned st b =
     (case cell_id_lookup st b of
        None \<Rightarrow> st\<lparr>cell_id_lookup := (cell_id_lookup st)(b \<mapsto> next_cell_id st),
                   cell_names := cell_names st @ [b],
                   next_cell_id := next_cell_id st + 1\<rparr>
      | Some k \<Rightarrow> st)"

datatype position = At data_line "data_line list" | Stale data_line | Drained



definition in_pos :: "bed \<Rightarrow> position \<Rightarrow> bool" where
  "in_pos st p \<longleftrightarrow>
     \<not> gz_broken st \<and>
     (case p of
        At r rs \<Rightarrow>
          line_buf st = line_text r \<and> gz_lines st = map line_text rs \<and> \<not> eof st \<and>
          data_line_ok r \<and> list_all data_line_ok rs
      | Stale r \<Rightarrow>
          line_buf st = line_text r \<and> gz_lines st = [] \<and> eof st \<and> data_line_ok r \<and>
          dl_chrom r = current_chr st \<and> last_start st = start_of r
      | Drained \<Rightarrow> line_buf st = [] \<and> gz_lines st = [] \<and> eof st)"



definition frame :: "bed \<Rightarrow> bed \<Rightarrow> bool" where
  "frame st st' \<longleftrightarrow>
     current_chr st' = current_chr st \<and> chr_lookup st' = chr_lookup st \<and>
     cell_id_lookup st \<subseteq>\<^sub>m cell_id_lookup st'"






section \<open>BedFragmentsWriter\<close>

text \<open>
  Source: \<^verbatim>\<open>BedFragmentsWriter::write\<close> in \<^verbatim>\<open>src/fragmentIterators/BedFragments.cpp\<close>.

  The \<^verbatim>\<open>FragmentsIterator\<close> handed to \<^verbatim>\<open>write\<close> is given by what it yields: chromosome after
  chromosome its name and its fragments \<open>(start, end, cell name)\<close>.  \<^verbatim>\<open>gzprintf\<close> belongs to
  zlib: it is the parameter \<open>gzprintf\<close>, which takes the output file, the format and the four
  arguments and returns its \<^verbatim>\<open>int\<close> result and the file afterwards.  The hook
  \<^verbatim>\<open>checkInterrupt\<close> is a function pointer or \<^verbatim>\<open>NULL\<close>; a hook has a state of its own and
  either returns or raises.

  Two fields of the writer's state are not in the source and only observe the run:
  \<open>n_written\<close> counts the fragments printed with success, and \<open>calls\<close> lists every call of
  the hook, with the number (from 0) of the fragment just printed and the hook's state at
  the call.  \<^verbatim>\<open>total_fragments\<close> is the \<^verbatim>\<open>size_t\<close> counter of the source, a 64-bit word.
\<close>

record ('z, 'h) writer =
  w_file :: 'z
  hook_state :: 'h
  total_fragments :: "64 word"
  n_written :: nat
  calls :: "(nat \<times> 'h) list"

type_synonym out_frag = "u32 \<times> u32 \<times> string"

definition output_format :: "bool \<Rightarrow> string" where
  "output_format append_5th_column =
     (if append_5th_column
      then [CHR ''%'', CHR ''s'', TAB, CHR ''%'', CHR ''d'', TAB, CHR ''%'', CHR ''d'', TAB,
            CHR ''%'', CHR ''s'', TAB, CHR ''0'', NL]
      else [CHR ''%'', CHR ''s'', TAB, CHR ''%'', CHR ''d'', TAB, CHR ''%'', CHR ''d'', TAB,
            CHR ''%'', CHR ''s'', NL])"

text \<open>The inner loop \<^verbatim>\<open>while (fragments.nextFrag())\<close> over one chromosome.  The result of
  \<^verbatim>\<open>gzprintf\<close> is stored in the \<^verbatim>\<open>uint32_t\<close> \<^verbatim>\<open>bytes_written\<close> and compared with 0.  With a
  hook, \<^verbatim>\<open>total_fragments++ % 1024 == 0\<close> tests the old value of the counter and increments
  it; without one the counter is not touched.  \<open>Inr (False, _)\<close> is \<^verbatim>\<open>return false\<close>.\<close>

fun write_chr ::
  "('z \<Rightarrow> string \<Rightarrow> string \<Rightarrow> u32 \<Rightarrow> u32 \<Rightarrow> string \<Rightarrow> int \<times> 'z) \<Rightarrow> ('h \<Rightarrow> 'e + 'h) option
     \<Rightarrow> string \<Rightarrow> string \<Rightarrow> out_frag list \<Rightarrow> ('z, 'h) writer
     \<Rightarrow> ('e \<times> ('z, 'h) writer) + (bool \<times> ('z, 'h) writer)" where
  "write_chr gzprintf checkInterrupt fmt chr_name [] w = Inr (True, w)"
| "write_chr gzprintf checkInterrupt fmt chr_name ((s, e, cell_name) # frs) w =
     (case gzprintf (w_file w) fmt chr_name s e cell_name of
        (ret, z1) \<Rightarrow>
          let bytes_written = (word_of_int ret :: u32) in
          if bytes_written \<le> 0 then Inr (False, w\<lparr>w_file := z1\<rparr>)
          else
            (case checkInterrupt of
               None \<Rightarrow>
                 write_chr gzprintf checkInterrupt fmt chr_name frs
                   (w\<lparr>w_file := z1, n_written := n_written w + 1\<rparr>)
             | Some hook \<Rightarrow>
                 let w1 = w\<lparr>w_file := z1, total_fragments := total_fragments w + 1,
                            n_written := n_written w + 1\<rparr> in
                 if total_fragments w mod 1024 = 0 then
                   (case hook (hook_state w) of
                      Inl err \<Rightarrow>
                        Inl (err, w1\<lparr>calls := calls w @ [(n_written w, hook_state w)]\<rparr>)
                    | Inr h1 \<Rightarrow>
                        write_chr gzprintf checkInterrupt fmt chr_name frs
                          (w1\<lparr>hook_state := h1,
                              calls := calls w @ [(n_written w, hook_state w)]\<rparr>))
                 else write_chr gzprintf checkInterrupt fmt chr_name frs w1))"

text \<open>The outer loop \<^verbatim>\<open>while (fragments.nextChr())\<close>.\<close>

fun write_chrs ::
  "('z \<Rightarrow> string \<Rightarrow> string \<Rightarrow> u32 \<Rightarrow> u32 \<Rightarrow> string \<Rightarrow> int \<times> 'z) \<Rightarrow> ('h \<Rightarrow> 'e + 'h) option
     \<Rightarrow> string \<Rightarrow> (string \<times> out_frag list) list \<Rightarrow> ('z, 'h) writer
     \<Rightarrow> ('e \<times> ('z, 'h) writer) + (bool \<times> ('z, 'h) writer)" where
  "write_chrs gzprintf checkInterrupt fmt [] w = Inr (True, w)"
| "write_chrs gzprintf checkInterrupt fmt ((chr_name, frs) # rest) w =
     (case write_chr gzprintf checkInterrupt fmt chr_name frs w of
        Inl ew \<Rightarrow> Inl ew
      | Inr (continue, w1) \<Rightarrow>
          if \<not> continue then Inr (False, w1)
          else write_chrs gzprintf checkInterrupt fmt rest w1)"

definition BedFragmentsWriter_write ::
  "('z \<Rightarrow> string \<Rightarrow> string \<Rightarrow> u32 \<Rightarrow> u32 \<Rightarrow> string \<Rightarrow> int \<times> 'z) \<Rightarrow> bool
     \<Rightarrow> (string \<times> out_frag list) list \<Rightarrow> ('h \<Rightarrow> 'e + 'h) option \<Rightarrow> 'z \<Rightarrow> 'h
     \<Rightarrow> ('e \<times> ('z, 'h) writer) + (bool \<times> ('z, 'h) writer)" where
  "BedFragmentsWriter_write gzprintf append_5th_column fragments checkInterrupt f h0 =
     write_chrs gzprintf checkInterrupt (output_format append_5th_column) fragments
       \<lparr>w_file = f, hook_state = h0, total_fragments = 0, n_written = 0, calls = []\<rparr>"

text \<open>The writer's state at the end of a call, however it ended.\<close>

definition final_writer :: "('e \<times> ('z, 'h) writer) + (bool \<times> ('z, 'h) writer) \<Rightarrow> ('z, 'h) writer" where
  "final_writer r = (case r of Inl (err, w) \<Rightarrow> w | Inr (ok, w) \<Rightarrow> w)"

text \<open>How the observation fields relate to the counter while a hook is installed: the
  counter is the number of fragments printed, narrowed to 64 bits, and the hook has been
  called exactly at the fragments whose number is a multiple of 1024.\<close>

definition counts_with :: "('z, 'h) writer \<Rightarrow> bool" where
  "counts_with w \<longleftrightarrow>
     total_fragments w = word_of_nat (n_written w) \<and>
     map fst (calls w) = filter (\<lambda>k. k mod 1024 = 0) [0..<n_written w]"

section \<open>HDF5-backed matrices\<close>

text \<open>
  Sources: \<^verbatim>\<open>src/matrixIterators/arrayIO.h\<close> and
  \<^verbatim>\<open>src/matrixIterators/ImportMatrixHDF5.cpp\<close>.

  The HighFive library is outside the repository.  Its part that the code relies on
  is modelled as a store: the file system maps a file path to an HDF5 file, a file maps
  an object path to a group or a data set, a group has attributes and a list of member
  names (\<^verbatim>\<open>getNumberObjects\<close> is its length).  Every HighFive exception is a value of
  \<open>h5_error\<close>.  Directories of the host file system are not modelled.
\<close>

datatype h5_error =
    FileException
  | GroupException
  | AttributeException
  | DataSetException
  | DataTypeException string
  | RuntimeError string
  | OutOfBounds   \<comment> \<open>a \<^verbatim>\<open>std::vector\<close> indexed beyond its size (undefined in C++)\<close>

datatype h5attr = StrAttr string | UIntsAttr "u32 list"

datatype h5class = StringClass | IntegerClass | FloatClass | OtherClass

record h5group =
  attrs :: "string \<rightharpoonup> h5attr"
  members :: "string list"

record h5dataset =
  ds_dims :: "nat list"
  ds_members :: "(string \<times> h5class \<times> string list) list"

datatype h5obj = Group h5group | DataSet h5dataset

type_synonym h5file = "string \<rightharpoonup> h5obj"
type_synonym h5fs = "string \<rightharpoonup> h5file"

definition then_do :: "'e + 'a \<Rightarrow> ('a \<Rightarrow> 'e + 'b) \<Rightarrow> 'e + 'b" where
  "then_do r k = (case r of Inl e \<Rightarrow> Inl e | Inr x \<Rightarrow> k x)"



definition open_readonly :: "h5fs \<Rightarrow> string \<Rightarrow> h5_error + h5file" where
  "open_readonly fs file_path =
     (case fs file_path of None \<Rightarrow> Inl FileException | Some f \<Rightarrow> Inr f)"


definition getGroup :: "h5file \<Rightarrow> string \<Rightarrow> h5_error + h5group" where
  "getGroup f group_path =
     (case f group_path of Some (Group g) \<Rightarrow> Inr g | _ \<Rightarrow> Inl GroupException)"

definition getDataSet :: "h5file \<Rightarrow> string \<Rightarrow> h5_error + h5dataset" where
  "getDataSet f path =
     (case f path of Some (DataSet d) \<Rightarrow> Inr d | _ \<Rightarrow> Inl DataSetException)"



definition hasAttribute :: "h5group \<Rightarrow> string \<Rightarrow> bool" where
  "hasAttribute g name = (attrs g name \<noteq> None)"

definition getAttribute :: "h5group \<Rightarrow> string \<Rightarrow> h5_error + h5attr" where
  "getAttribute g name =
     (case attrs g name of None \<Rightarrow> Inl AttributeException | Some a \<Rightarrow> Inr a)"

definition read_string :: "h5attr \<Rightarrow> h5_error + string" where
  "read_string a =
     (case a of StrAttr s \<Rightarrow> Inr s
      | UIntsAttr v \<Rightarrow> Inl (DataTypeException ''attribute is not a string''))"

definition read_uints :: "h5attr \<Rightarrow> h5_error + u32 list" where
  "read_uints a =
     (case a of UIntsAttr v \<Rightarrow> Inr v
      | StrAttr s \<Rightarrow> Inl (DataTypeException ''attribute is not an integer vector''))"

subsection \<open>Packed matrices in a group\<close>

text \<open>A \<^verbatim>\<open>PackedMatrix\<close> is built from seven readers.  The reader class
  \<^verbatim>\<open>ZH5UIntReader\<close> is not among the sources: its constructor is the parameter
  \<open>new_reader\<close>, given the group, the data set's name and the buffer size, and it may
  raise.\<close>

record 'r packed_matrix =
  val_data :: 'r
  val_idx :: 'r
  row_data :: 'r
  row_starts :: 'r
  row_idx :: 'r
  col_ptr :: 'r
  row_count :: 'r

definition openPackedMatrixH5 ::
  "(h5group \<Rightarrow> string \<Rightarrow> u32 \<Rightarrow> h5_error + 'r) \<Rightarrow> h5fs \<Rightarrow> string \<Rightarrow> string \<Rightarrow> u32
     \<Rightarrow> h5_error + 'r packed_matrix" where
  "openPackedMatrixH5 new_reader fs file_path group_path0 buffer_size =
     (let group_path = (if group_path0 = [] then ''/'' else group_path0) in
      then_do (open_readonly fs file_path) (\<lambda>file.
      then_do (getGroup file group_path) (\<lambda>group.
      then_do (getAttribute group ''version'') (\<lambda>a.
      then_do (read_string a) (\<lambda>version.
        if version \<noteq> ''v1-packed'' then
          Inl (RuntimeError
                 ''HDF5 group does not have correct version attribute (v1-packed)'')
        else
          then_do (new_reader group ''val_data'' buffer_size) (\<lambda>r1.
          then_do (new_reader group ''val_idx'' buffer_size) (\<lambda>r2.
          then_do (new_reader group ''row_data'' buffer_size) (\<lambda>r3.
          then_do (new_reader group ''row_starts'' buffer_size) (\<lambda>r4.
          then_do (new_reader group ''row_idx'' buffer_size) (\<lambda>r5.
          then_do (new_reader group ''col_ptr'' buffer_size) (\<lambda>r6.
          then_do (new_reader group ''row_count'' buffer_size) (\<lambda>r7.
            Inr \<lparr>val_data = r1, val_idx = r2, row_data = r3, row_starts = r4,
                 row_idx = r5, col_ptr = r6, row_count = r7\<rparr>))))))))))))"


subsection \<open>AnnData matrices\<close>

text \<open>String tables: held in memory (\<^verbatim>\<open>VecStringReader\<close>) or read from a data set of the
  file (\<^verbatim>\<open>H5StringReader\<close>, given the file and the path below its root).\<close>

datatype string_reader = VecStringReader "string list" | H5StringReader string string

record ('u, 'f) stored_matrix =
  sm_indices :: 'u
  sm_data :: 'f
  sm_indptr :: 'u
  sm_rows :: u32
  sm_row_names :: string_reader
  sm_col_names :: string_reader

text \<open>\<^verbatim>\<open>readMember\<close> for strings: the data set must have one dimension; the first member
  of its compound type with the given name must be of the string class.\<close>

fun find_member :: "string \<Rightarrow> h5class \<Rightarrow> (string \<times> h5class \<times> string list) list
                      \<Rightarrow> h5_error + string list" where
  "find_member name cls [] =
     Inl (DataTypeException ''Member not found in compound data type'')"
| "find_member name cls ((n, c, column) # ms) =
     (if n = name then
        (if c = cls then Inr column
         else Inl (DataTypeException
                     ''Type of member in file does not match class of requested type''))
      else find_member name cls ms)"

definition readMember :: "h5dataset \<Rightarrow> string \<Rightarrow> h5_error + string list" where
  "readMember dataset name =
     (if length (ds_dims dataset) \<noteq> 1 then Inl (RuntimeError ''readMember: dims must be 1'')
      else find_member name StringClass (ds_members dataset))"

text \<open>Element \<open>i\<close> of a \<^verbatim>\<open>std::vector\<close>.\<close>

definition at_index :: "'a list \<Rightarrow> nat \<Rightarrow> h5_error + 'a" where
  "at_index v i = (if i < length v then Inr (v ! i) else Inl OutOfBounds)"

text \<open>The first part of \<^verbatim>\<open>openAnnDataMatrix\<close>: the chain over the legacy attributes
  (\<^verbatim>\<open>h5sparse_format\<close>, \<^verbatim>\<open>h5sparse_shape\<close>) and the current ones (\<^verbatim>\<open>encoding-type\<close>,
  \<^verbatim>\<open>shape\<close>).  It yields the encoding, the dimensions and the providers of the column
  names (from \<^verbatim>\<open>var\<close>) and of the row names (from \<^verbatim>\<open>obs\<close>), in this order.\<close>

definition anndata_header ::
  "h5file \<Rightarrow> string \<Rightarrow> h5group
     \<Rightarrow> h5_error + (string \<times> u32 list \<times> string_reader \<times> string_reader)" where
  "anndata_header f file g =
     (if hasAttribute g ''h5sparse_format'' then
        then_do (then_do (getAttribute g ''h5sparse_format'') read_string) (\<lambda>encoding.
        then_do (then_do (getAttribute g ''h5sparse_shape'') read_uints) (\<lambda>dims.
        then_do (getDataSet f ''/var'') (\<lambda>var.
        then_do (readMember var ''index'') (\<lambda>col_name_data.
        then_do (getDataSet f ''/obs'') (\<lambda>obs.
        then_do (readMember obs ''index'') (\<lambda>row_name_data.
          Inr (encoding @ ''_matrix'', dims,
               VecStringReader col_name_data, VecStringReader row_name_data)))))))
      else if hasAttribute g ''encoding-type'' then
        then_do (then_do (getAttribute g ''encoding-type'') read_string) (\<lambda>encoding.
        then_do (then_do (getAttribute g ''shape'') read_uints) (\<lambda>dims.
        then_do (getGroup f ''/var'') (\<lambda>var.
        then_do (then_do (getAttribute var ''_index'') read_string) (\<lambda>col_ids.
        then_do (getGroup f ''/obs'') (\<lambda>obs.
        then_do (then_do (getAttribute obs ''_index'') read_string) (\<lambda>row_ids.
          Inr (encoding, dims,
               H5StringReader file (''var/'' @ col_ids),
               H5StringReader file (''obs/'' @ row_ids))))))))
      else
        Inl (RuntimeError
               ''h5ad could not be read - missing attribute encoding-type on sparse matrix''))"

text \<open>\<^verbatim>\<open>openAnnDataMatrix\<close>.  \<^verbatim>\<open>H5ReaderBuilder\<close> is not among the sources: it opens the
  file and the group, and its \<^verbatim>\<open>openUIntReader\<close> and \<^verbatim>\<open>openFloatReader\<close> are the
  parameters \<open>open_uint\<close> and \<open>open_float\<close>, given the group and the data set's name.
  For \<^verbatim>\<open>csr_matrix\<close> the row count is \<^verbatim>\<open>dims[1]\<close> and \<^verbatim>\<open>std::swap\<close> exchanges the two
  name providers.  The function only reads: it returns no changed file system.\<close>

definition openAnnDataMatrix ::
  "(h5group \<Rightarrow> string \<Rightarrow> h5_error + 'u) \<Rightarrow> (h5group \<Rightarrow> string \<Rightarrow> h5_error + 'f)
     \<Rightarrow> h5fs \<Rightarrow> string \<Rightarrow> string \<Rightarrow> u32 \<Rightarrow> u32 \<Rightarrow> h5_error + ('u, 'f) stored_matrix" where
  "openAnnDataMatrix open_uint open_float fs file group_path buffer_size read_size =
     then_do (open_readonly fs file) (\<lambda>f.
     then_do (getGroup f group_path) (\<lambda>g.
     then_do (getGroup f ''/'') (\<lambda>root.
     then_do (anndata_header f file g) (\<lambda>(encoding, dims, col_names, row_names).
     then_do
       (if encoding = ''csr_matrix'' then
          then_do (at_index dims 1) (\<lambda>rows. Inr (rows, col_names, row_names))
        else if encoding = ''csc_matrix'' then
          then_do (at_index dims 0) (\<lambda>rows. Inr (rows, row_names, col_names))
        else Inl (RuntimeError (''Unsupported matrix encoding: '' @ encoding)))
       (\<lambda>(rows, row_names1, col_names1).
     then_do (open_uint g ''indices'') (\<lambda>indices.
     then_do (open_float g ''data'') (\<lambda>data.
     then_do (open_uint g ''indptr'') (\<lambda>indptr.
       Inr \<lparr>sm_indices = indices, sm_data = data, sm_indptr = indptr, sm_rows = rows,
            sm_row_names = row_names1, sm_col_names = col_names1\<rparr>))))))))"

definition isRowOrientedAnnDataMatrix :: "h5fs \<Rightarrow> string \<Rightarrow> string \<Rightarrow> h5_error + bool" where
  "isRowOrientedAnnDataMatrix fs file group_path =
     then_do (open_readonly fs file) (\<lambda>f.
     then_do (getGroup f group_path) (\<lambda>g.
     then_do
       (if hasAttribute g ''h5sparse_format'' then
          then_do (then_do (getAttribute g ''h5sparse_format'') read_string) (\<lambda>encoding.
            Inr (encoding @ ''_matrix''))
        else if hasAttribute g ''encoding-type'' then
          then_do (getAttribute g ''encoding-type'') read_string
        else
          Inl (RuntimeError
                 ''h5ad could not be read - missing attribute encoding-type on sparse matrix''))
       (\<lambda>encoding.
          if encoding = ''csr_matrix'' then Inr True
          else if encoding = ''csc_matrix'' then Inr False
          else Inl (RuntimeError (''Unsupported matrix encoding: '' @ encoding)))))"

section \<open>Sparse matrices, peak and tile counts\<close>

text \<open>
  What a \<^verbatim>\<open>MatrixIterator\<close> delivers: the shape and, column after column, the entries
  \<open>(row, value)\<close> in the order of delivery.  This is also what
  \<^verbatim>\<open>matrix_identical_cpp\<close> of \<^verbatim>\<open>tests/googletest/test-peakMatrix.cpp\<close> compares.
\<close>

record 'v sparse_matrix =
  m_rows :: nat
  m_cols :: nat
  m_columns :: "(nat \<times> 'v) list list"

text \<open>The entries as triples \<open>(row, column, value)\<close>, column by column.\<close>

definition triplets :: "'v sparse_matrix \<Rightarrow> (nat \<times> nat \<times> 'v) list" where
  "triplets m =
     concat (map (\<lambda>(c, column). map (\<lambda>(r, v). (r, c, v)) column)
                 (zip [0..<length (m_columns m)] (m_columns m)))"

text \<open>A stored fragment set as the tests write it: per chromosome its name and the
  fragments \<open>(cell, start, end)\<close> in the order written.\<close>

type_synonym cell_frag = "u32 \<times> u32 \<times> u32"
type_synonym frag_set = "(string \<times> cell_frag list) list"

text \<open>Modelled from the spec: \<^verbatim>\<open>PeakMatrix\<close> (\<^verbatim>\<open>matrixIterators/PeakMatrix.h\<close> is not among
  the sources).  Section 4.8: the count incremented for peak \<open>p\<close> by a fragment \<open>(s, e)\<close>
  is \<open>I[p.start \<le> s < p.end] + I[p.start \<le> e - 1 < p.end]\<close>; the output has one row
  per cell and one column per peak in input order, with \<^verbatim>\<open>u32\<close> counts; zeros are not
  emitted and rows ascend within a column.  The peak's chromosome id is resolved through
  the name table given with the peaks; a chromosome that the fragments do not have
  yields an empty column.\<close>

definition endpoint_hits :: "u32 \<Rightarrow> u32 \<Rightarrow> cell_frag \<Rightarrow> nat" where
  "endpoint_hits p_start p_end fr =
     (case fr of (cell, s, e) \<Rightarrow>
        (if p_start \<le> s \<and> s < p_end then 1 else 0) +
        (if uint p_start \<le> uint e - 1 \<and> uint e - 1 < uint p_end then 1 else 0))"

definition frags_of_chr :: "frag_set \<Rightarrow> string list \<Rightarrow> u32 \<Rightarrow> cell_frag list" where
  "frags_of_chr frags chr_table chr_id =
     (if unat chr_id < length chr_table then
        (case map_of frags (chr_table ! unat chr_id) of None \<Rightarrow> [] | Some fs \<Rightarrow> fs)
      else [])"

definition peak_column :: "nat \<Rightarrow> cell_frag list \<Rightarrow> u32 \<Rightarrow> u32 \<Rightarrow> (nat \<times> u32) list" where
  "peak_column n_cells fs p_start p_end =
     filter (\<lambda>(row, count). count \<noteq> 0)
       (map (\<lambda>c. (c, word_of_nat
                        (sum_list (map (endpoint_hits p_start p_end)
                                       (filter (\<lambda>(cell, s, e). unat cell = c) fs)))))
            [0..<n_cells])"

definition PeakMatrix :: "frag_set \<Rightarrow> nat \<Rightarrow> u32 list \<Rightarrow> u32 list \<Rightarrow> u32 list \<Rightarrow> string list
                            \<Rightarrow> u32 sparse_matrix" where
  "PeakMatrix frags n_cells chr start end chr_table =
     \<lparr>m_rows = n_cells, m_cols = length chr,
      m_columns = map (\<lambda>(c, s, e). peak_column n_cells (frags_of_chr frags chr_table c) s e)
                      (zip chr (zip start end))\<rparr>"

text \<open>Modelled from the spec: \<^verbatim>\<open>TileMatrix\<close> (\<^verbatim>\<open>matrixIterators/TileMatrix.h\<close> is not among
  the sources).  Section 4.9: the tiles of the regions are laid out one after the other in
  region order; tile \<open>j\<close> of region \<open>r\<close> covers
  \<open>[start_r + j * w_r, min (start_r + (j + 1) * w_r) end_r)\<close>, the last one truncated; each
  of the two endpoints of a fragment adds one to the tile that contains it.\<close>

definition tiles_of_region :: "u32 \<Rightarrow> u32 \<Rightarrow> u32 \<Rightarrow> u32 \<Rightarrow> (u32 \<times> u32 \<times> u32) list" where
  "tiles_of_region c s e w =
     map (\<lambda>j. (c, word_of_nat (unat s + j * unat w),
                   word_of_nat (min (unat s + (j + 1) * unat w) (unat e))))
         [0..<(unat e - unat s + unat w - 1) div unat w]"

definition TileMatrix :: "frag_set \<Rightarrow> nat \<Rightarrow> u32 list \<Rightarrow> u32 list \<Rightarrow> u32 list \<Rightarrow> u32 list
                            \<Rightarrow> string list \<Rightarrow> u32 sparse_matrix" where
  "TileMatrix frags n_cells chr start end width chr_table =
     (let tiles = concat (map (\<lambda>(c, s, e, w). tiles_of_region c s e w)
                              (zip chr (zip start (zip end width)))) in
      \<lparr>m_rows = n_cells, m_cols = length tiles,
       m_columns = map (\<lambda>(c, s, e). peak_column n_cells (frags_of_chr frags chr_table c) s e)
                       tiles\<rparr>)"

subsection \<open>The fixtures of the tests\<close>

text \<open>\<^verbatim>\<open>TEST(PeakMatrix, PeakMatrix)\<close>: the three nested loops over \<open>j\<close>, \<open>i\<close>, \<open>k\<close> write
  \<open>i + 1\<close> copies of \<open>(cell = i, start = j, end = 1002 + i)\<close>; four more fragments form
  the second chromosome.\<close>

definition peak_test_frags :: frag_set where
  "peak_test_frags =
     [(''chr1'',
       concat (map (\<lambda>j. concat (map (\<lambda>i. replicate (i + 1)
                                          (word_of_nat i, word_of_nat j, word_of_nat (1002 + i)))
                                      [0..<j + 1]))
                   [0..<5])),
      (''chr2'', [(0, 9, 21), (1, 9, 20), (2, 10, 21), (3, 10, 20)])]"

definition peak_test_matrix :: "u32 sparse_matrix" where
  "peak_test_matrix =
     PeakMatrix peak_test_frags 5 [0, 0, 0, 1] [2, 1002, 1004, 10] [4, 1005, 1006, 20]
       [''chr1'', ''chr2'']"

text \<open>\<^verbatim>\<open>TEST(PeakMatrix, TileMatrix)\<close>, in the order the test writes the fragments.\<close>

definition tile_test_frags :: frag_set where
  "tile_test_frags =
     [(''chr1'',
       [(0, 9, 21), (0, 9, 10), (1, 12, 78)] @
       concat (map (\<lambda>i. replicate (i + 1) (2, word_of_nat (11 + i), word_of_nat (30 + i)))
                   [0..<12]) @
       [(0, 20, 21)] @
       concat (map (\<lambda>i. replicate (i + 2) (3, word_of_nat (29 + i), word_of_nat (50 + i)))
                   [0..<12])),
      (''chr2'', [(0, 69, 81), (1, 69, 80), (2, 70, 81), (3, 70, 80)])]"

definition tile_test_matrix :: "u32 sparse_matrix" where
  "tile_test_matrix =
     TileMatrix tile_test_frags 5 [0, 0, 0, 1] [10, 30, 50, 70] [20, 40, 60, 80] [5, 3, 5, 12]
       [''chr1'', ''chr2'']"

subsection \<open>Concatenation of matrices\<close>

text \<open>The dense form of a matrix, as the list of its rows: an entry that no column
  delivers is zero.  \<open>vstack\<close> puts the rows of the second matrix below those of the
  first, \<open>hstack\<close> puts each row of the second to the right of the same row of the first
  (Eigen's \<^verbatim>\<open>concat_dense << MatrixXd(m1), MatrixXd(m2)\<close> in \<^verbatim>\<open>test-matrixIO.cpp\<close>).\<close>

definition entry :: "'v::zero sparse_matrix \<Rightarrow> nat \<Rightarrow> nat \<Rightarrow> 'v" where
  "entry m i j = (case map_of (m_columns m ! j) i of None \<Rightarrow> 0 | Some v \<Rightarrow> v)"

definition dense :: "'v::zero sparse_matrix \<Rightarrow> 'v list list" where
  "dense m = map (\<lambda>i. map (\<lambda>j. entry m i j) [0..<m_cols m]) [0..<m_rows m]"

definition vstack :: "'v list list \<Rightarrow> 'v list list \<Rightarrow> 'v list list" where
  "vstack a b = a @ b"

definition hstack :: "'v list list \<Rightarrow> 'v list list \<Rightarrow> 'v list list" where
  "hstack a b = map (\<lambda>(x, y). x @ y) (zip a b)"

text \<open>A matrix as a loader presents it: one list of entries per column, and every row
  index below the number of rows.\<close>

definition matrix_ok :: "'v sparse_matrix \<Rightarrow> bool" where
  "matrix_ok m \<longleftrightarrow>
     length (m_columns m) = m_cols m \<and>
     list_all (\<lambda>column. list_all (\<lambda>(r, v). r < m_rows m) column) (m_columns m)"

datatype shape_error = ShapeError

text \<open>Modelled from the spec: \<^verbatim>\<open>ConcatRows\<close> and \<^verbatim>\<open>ConcatCols\<close>
  (\<^verbatim>\<open>matrixIterators/ConcatenateMatrix.h\<close> is not among the sources).  Section 4.7:
  \<^verbatim>\<open>ConcatRows\<close> row-stacks: for each column \<open>j\<close> it emits the rows of source 0 as they
  are, then the rows of source 1 with the offset \<open>rows(0)\<close>, and so on; it rejects
  construction on mismatched column counts.  \<^verbatim>\<open>ConcatCols\<close> puts the columns of the
  sources one after the other and rejects construction on mismatched row counts.  The
  name tables, which the specification requires to agree, are not part of this model;
  an empty list of sources, of which the specification says nothing, is rejected.\<close>

fun stack_column :: "nat \<Rightarrow> nat \<Rightarrow> 'v sparse_matrix list \<Rightarrow> (nat \<times> 'v) list" where
  "stack_column j offset [] = []"
| "stack_column j offset (m # ms) =
     map (\<lambda>(r, v). (r + offset, v)) (m_columns m ! j) @ stack_column j (offset + m_rows m) ms"

definition ConcatRows :: "'v sparse_matrix list \<Rightarrow> shape_error + 'v sparse_matrix" where
  "ConcatRows sources =
     (case sources of
        [] \<Rightarrow> Inl ShapeError
      | a # rest \<Rightarrow>
          if list_all (\<lambda>m. m_cols m = m_cols a) rest then
            Inr \<lparr>m_rows = sum_list (map m_rows sources), m_cols = m_cols a,
                 m_columns = map (\<lambda>j. stack_column j 0 sources) [0..<m_cols a]\<rparr>
          else Inl ShapeError)"

definition ConcatCols :: "'v sparse_matrix list \<Rightarrow> shape_error + 'v sparse_matrix" where
  "ConcatCols sources =
     (case sources of
        [] \<Rightarrow> Inl ShapeError
      | a # rest \<Rightarrow>
          if list_all (\<lambda>m. m_rows m = m_rows a) rest then
            Inr \<lparr>m_rows = m_rows a, m_cols = sum_list (map m_cols sources),
                 m_columns = concat (map m_columns sources)\<rparr>
          else Inl ShapeError)"

section \<open>Name lookup of the reader\<close>

text \<open>C10.  For every reader state and every identifier: an identifier at or beyond the
  number of names stored so far yields \<^verbatim>\<open>NULL\<close> (\<open>None\<close>) from \<^verbatim>\<open>chrNames\<close>, respectively
  \<^verbatim>\<open>cellNames\<close>; an identifier in range yields the name stored at that index.\<close>

theorem names_lookup_total:
  "(length (chr_names st) \<le> unat chr_id \<longrightarrow> chrNames st chr_id = None) \<and>
   (unat chr_id < length (chr_names st) \<longrightarrow>
      chrNames st chr_id = Some (chr_names st ! unat chr_id)) \<and>
   (length (cell_names st) \<le> unat cell_id \<longrightarrow> cellNames st cell_id = None) \<and>
   (unat cell_id < length (cell_names st) \<longrightarrow>
      cellNames st cell_id = Some (cell_names st ! unat cell_id))"
  by (simp add: chrNames_def cellNames_def)

theorem names_lookup_total_witness:
  "(case read_bed 10 4
           (Some ([''chr1'' @ [TAB] @ ''5'' @ [TAB] @ ''9'' @ [TAB] @ ''A'' @ [NL],
                   ''chr2'' @ [TAB] @ ''1'' @ [TAB] @ ''3'' @ [TAB] @ ''B'' @ [NL]], False)) [] of
      Some (Inr (out, st)) \<Rightarrow>
        chrNames st 2 = None \<and> chrNames st 1 = Some ''chr2'' \<and>
        cellNames st 7 = None \<and> cellNames st 0 = Some ''A''
    | _ \<Rightarrow> False)"
proof -
  let ?run = "read_bed 10 4
           (Some ([''chr1'' @ [TAB] @ ''5'' @ [TAB] @ ''9'' @ [TAB] @ ''A'' @ [NL],
                   ''chr2'' @ [TAB] @ ''1'' @ [TAB] @ ''3'' @ [TAB] @ ''B'' @ [NL]], False)) []"
  have "(case ?run of
           Some (Inr (out, st)) \<Rightarrow>
             chr_names st = [''chr1'', ''chr2''] \<and> cell_names st = [''A'', ''B'']
         | _ \<Rightarrow> False)"
    by code_simp
  then obtain out st where run: "?run = Some (Inr (out, st))"
    and chrs: "chr_names st = [''chr1'', ''chr2'']" and cells: "cell_names st = [''A'', ''B'']"
    by (auto split: option.splits sum.splits)
  have "chrNames st 2 = None \<and> cellNames st 7 = None"
    using names_lookup_total [of st 2 7] chrs cells by simp
  moreover have "chrNames st 1 = Some ''chr2'' \<and> cellNames st 0 = Some ''A''"
    using names_lookup_total [of st 1 0] chrs cells by simp
  ultimately show ?thesis
    using run by simp
qed

section \<open>Opening and creating matrices in HDF5 groups\<close>

lemma then_do_simps:
  "then_do (Inl e) k = Inl e" "then_do (Inr x) k = k x"
  by (simp_all add: then_do_def)

lemma then_do_Inr_iff:
  "then_do r k = Inr y \<longleftrightarrow> (\<exists>x. r = Inr x \<and> k x = Inr y)"
  by (cases r) (simp_all add: then_do_def)

text \<open>C5 (as amended).  \<^verbatim>\<open>openPackedMatrixH5\<close> returns a matrix only for a group whose string
  attribute \<^verbatim>\<open>version\<close> is \<^verbatim>\<open>v1-packed\<close>, the tag the code compares with; for a group
  whose version is any other string it raises the \<^verbatim>\<open>runtime_error\<close> and returns no
  reader.  This holds for every constructor of the readers.\<close>

theorem packed_version_gate:
  fixes new_reader :: "h5group \<Rightarrow> string \<Rightarrow> u32 \<Rightarrow> h5_error + 'r"
  shows
  "(\<forall>m. openPackedMatrixH5 new_reader fs file_path group_path buffer_size = Inr m \<longrightarrow>
      (\<exists>f g. fs file_path = Some f \<and>
             f (if group_path = [] then ''/'' else group_path) = Some (Group g) \<and>
             attrs g ''version'' = Some (StrAttr ''v1-packed''))) \<and>
   (\<forall>f g v. fs file_path = Some f \<and>
            f (if group_path = [] then ''/'' else group_path) = Some (Group g) \<and>
            attrs g ''version'' = Some (StrAttr v) \<and> v \<noteq> ''v1-packed'' \<longrightarrow>
      openPackedMatrixH5 new_reader fs file_path group_path buffer_size =
        Inl (RuntimeError ''HDF5 group does not have correct version attribute (v1-packed)''))"
proof (intro conjI allI impI)
  fix m
  assume ok: "openPackedMatrixH5 new_reader fs file_path group_path buffer_size = Inr m"
  let ?gp = "if group_path = [] then ''/'' else group_path"
  from ok obtain f where f: "fs file_path = Some f"
    by (auto simp: openPackedMatrixH5_def Let_def then_do_Inr_iff open_readonly_def
             split: option.splits)
  from ok f obtain g where g: "f ?gp = Some (Group g)"
    by (auto simp: openPackedMatrixH5_def Let_def then_do_Inr_iff open_readonly_def getGroup_def
             split: option.splits h5obj.splits)
  from ok f g obtain a where a: "attrs g ''version'' = Some a"
    by (auto simp: openPackedMatrixH5_def Let_def then_do_Inr_iff open_readonly_def getGroup_def
                   getAttribute_def
             split: option.splits h5obj.splits if_splits)
  from ok f g a have "a = StrAttr ''v1-packed''"
    by (cases a; cases "group_path = []")
       (auto simp: openPackedMatrixH5_def Let_def then_do_simps open_readonly_def getGroup_def
                   getAttribute_def read_string_def
             split: if_splits)
  with f g a show "\<exists>f g. fs file_path = Some f \<and> f ?gp = Some (Group g) \<and>
             attrs g ''version'' = Some (StrAttr ''v1-packed'')"
    by blast
next
  fix f g v
  assume "fs file_path = Some f \<and>
            f (if group_path = [] then ''/'' else group_path) = Some (Group g) \<and>
            attrs g ''version'' = Some (StrAttr v) \<and> v \<noteq> ''v1-packed''"
  then show "openPackedMatrixH5 new_reader fs file_path group_path buffer_size =
        Inl (RuntimeError ''HDF5 group does not have correct version attribute (v1-packed)'')"
    by (cases "group_path = []")
       (simp_all add: openPackedMatrixH5_def Let_def then_do_simps open_readonly_def getGroup_def
                   getAttribute_def read_string_def)
qed

theorem packed_version_gate_witness:
  "openPackedMatrixH5 (\<lambda>g name size. Inr name)
     [''m.h5'' \<mapsto> [''/mat'' \<mapsto> Group \<lparr>attrs = [''version'' \<mapsto> StrAttr ''v1-packed''],
                                            members = [''val_data'', ''val_idx'']\<rparr>]]
     ''m.h5'' ''/mat'' 8192
     = Inr \<lparr>val_data = ''val_data'', val_idx = ''val_idx'', row_data = ''row_data'',
            row_starts = ''row_starts'', row_idx = ''row_idx'', col_ptr = ''col_ptr'',
            row_count = ''row_count''\<rparr> \<and>
   openPackedMatrixH5 (\<lambda>g name size. Inr name)
     [''m.h5'' \<mapsto> [''/'' \<mapsto> Group \<lparr>attrs = [''version'' \<mapsto> StrAttr ''v2-packed''],
                                         members = [''val_data'', ''val_idx'']\<rparr>]]
     ''m.h5'' [] 8192
     = Inl (RuntimeError ''HDF5 group does not have correct version attribute (v1-packed)'')"
proof
  show "openPackedMatrixH5 (\<lambda>g name size. Inr name)
     [''m.h5'' \<mapsto> [''/mat'' \<mapsto> Group \<lparr>attrs = [''version'' \<mapsto> StrAttr ''v1-packed''],
                                            members = [''val_data'', ''val_idx'']\<rparr>]]
     ''m.h5'' ''/mat'' 8192
     = Inr \<lparr>val_data = ''val_data'', val_idx = ''val_idx'', row_data = ''row_data'',
            row_starts = ''row_starts'', row_idx = ''row_idx'', col_ptr = ''col_ptr'',
            row_count = ''row_count''\<rparr>"
    by (simp add: openPackedMatrixH5_def Let_def then_do_simps open_readonly_def getGroup_def
                  getAttribute_def read_string_def)
next
  let ?g = "\<lparr>attrs = [''version'' \<mapsto> StrAttr ''v2-packed''],
            members = [''val_data'', ''val_idx'']\<rparr>"
  let ?f = "[''/'' \<mapsto> Group ?g]"
  have "[''m.h5'' \<mapsto> ?f] ''m.h5'' = Some ?f \<and>
        ?f (if ([]::string) = [] then ''/'' else []) = Some (Group ?g) \<and>
        attrs ?g ''version'' = Some (StrAttr ''v2-packed'') \<and> ''v2-packed'' \<noteq> ''v1-packed''"
    by simp
  then show "openPackedMatrixH5 (\<lambda>g name size. Inr name) [''m.h5'' \<mapsto> ?f] ''m.h5'' [] 8192
     = Inl (RuntimeError ''HDF5 group does not have correct version attribute (v1-packed)'')"
    using packed_version_gate [of "\<lambda>g name size. Inr name" "[''m.h5'' \<mapsto> ?f]" "''m.h5''" "[]" 8192]
    by blast
qed

text \<open>C5 as the specification states it names the tag \<^verbatim>\<open>packed-matrix-v1\<close>.  A group with
  exactly this version is refused, and a group with the different string \<^verbatim>\<open>v1-packed\<close>
  is opened.\<close>

theorem packed_version_tag_counterexample:
  "openPackedMatrixH5 (\<lambda>g name size. Inr name)
     [''m.h5'' \<mapsto> [''/'' \<mapsto> Group \<lparr>attrs = [''version'' \<mapsto> StrAttr ''packed-matrix-v1''],
                                         members = [''val_data'']\<rparr>]]
     ''m.h5'' ''/'' 8192
     = Inl (RuntimeError ''HDF5 group does not have correct version attribute (v1-packed)'') \<and>
   ''v1-packed'' \<noteq> ''packed-matrix-v1'' \<and>
   openPackedMatrixH5 (\<lambda>g name size. Inr name)
     [''m.h5'' \<mapsto> [''/'' \<mapsto> Group \<lparr>attrs = [''version'' \<mapsto> StrAttr ''v1-packed''],
                                         members = [''val_data'']\<rparr>]]
     ''m.h5'' ''/'' 8192
     = Inr \<lparr>val_data = ''val_data'', val_idx = ''val_idx'', row_data = ''row_data'',
            row_starts = ''row_starts'', row_idx = ''row_idx'', col_ptr = ''col_ptr'',
            row_count = ''row_count''\<rparr>"
  by (simp add: openPackedMatrixH5_def Let_def then_do_simps open_readonly_def getGroup_def
                getAttribute_def read_string_def)



text \<open>C7.  \<^verbatim>\<open>openAnnDataMatrix\<close> on a group whose header (legacy or current) was read
  and whose three readers open: for \<^verbatim>\<open>csr_matrix\<close> the row count is \<^verbatim>\<open>dims[1]\<close>, the row
  names come from \<^verbatim>\<open>var\<close> and the column names from \<^verbatim>\<open>obs\<close>; for \<^verbatim>\<open>csc_matrix\<close> the
  row count is \<^verbatim>\<open>dims[0]\<close>, the row names come from \<^verbatim>\<open>obs\<close> and the column names from
  \<^verbatim>\<open>var\<close>.  In both cases the matrix reads the same data sets \<^verbatim>\<open>indices\<close>, \<^verbatim>\<open>data\<close> and
  \<^verbatim>\<open>indptr\<close> of the group, and nothing is written.\<close>

theorem anndata_csr_is_transposed_view:
  fixes open_uint :: "h5group \<Rightarrow> string \<Rightarrow> h5_error + 'u"
    and open_float :: "h5group \<Rightarrow> string \<Rightarrow> h5_error + 'f"
  assumes "fs file = Some f" and "f group_path = Some (Group g)"
    and "f ''/'' = Some (Group root)"
    and "anndata_header f file g = Inr (encoding, dims, from_var, from_obs)"
    and "open_uint g ''indices'' = Inr indices" and "open_float g ''data'' = Inr data"
    and "open_uint g ''indptr'' = Inr indptr"
  shows
    "(encoding = ''csr_matrix'' \<and> 1 < length dims \<longrightarrow>
        openAnnDataMatrix open_uint open_float fs file group_path buffer_size read_size =
          Inr \<lparr>sm_indices = indices, sm_data = data, sm_indptr = indptr, sm_rows = dims ! 1,
               sm_row_names = from_var, sm_col_names = from_obs\<rparr>) \<and>
     (encoding = ''csc_matrix'' \<and> 0 < length dims \<longrightarrow>
        openAnnDataMatrix open_uint open_float fs file group_path buffer_size read_size =
          Inr \<lparr>sm_indices = indices, sm_data = data, sm_indptr = indptr, sm_rows = dims ! 0,
               sm_row_names = from_obs, sm_col_names = from_var\<rparr>)"
  using assms
  by (simp add: openAnnDataMatrix_def then_do_simps open_readonly_def getGroup_def at_index_def)

theorem anndata_csr_is_transposed_view_witness:
  "openAnnDataMatrix (\<lambda>g name. Inr name) (\<lambda>g name. Inr name)
     [''a.h5ad'' \<mapsto>
        [''/'' \<mapsto> Group \<lparr>attrs = Map.empty, members = [''X'', ''var'', ''obs'']\<rparr>,
         ''/X'' \<mapsto> Group \<lparr>attrs = [''encoding-type'' \<mapsto> StrAttr ''csr_matrix'',
                                     ''shape'' \<mapsto> UIntsAttr [3, 5]],
                            members = [''data'', ''indices'', ''indptr'']\<rparr>,
         ''/var'' \<mapsto> Group \<lparr>attrs = [''_index'' \<mapsto> StrAttr ''gene_ids''], members = [''gene_ids'']\<rparr>,
         ''/obs'' \<mapsto> Group \<lparr>attrs = [''_index'' \<mapsto> StrAttr ''barcodes''], members = [''barcodes'']\<rparr>]]
     ''a.h5ad'' ''/X'' 8192 1024
   = Inr \<lparr>sm_indices = ''indices'', sm_data = ''data'', sm_indptr = ''indptr'', sm_rows = 5,
          sm_row_names = H5StringReader ''a.h5ad'' ''var/gene_ids'',
          sm_col_names = H5StringReader ''a.h5ad'' ''obs/barcodes''\<rparr> \<and>
   openAnnDataMatrix (\<lambda>g name. Inr name) (\<lambda>g name. Inr name)
     [''b.h5ad'' \<mapsto>
        [''/'' \<mapsto> Group \<lparr>attrs = Map.empty, members = [''X'', ''var'', ''obs'']\<rparr>,
         ''/X'' \<mapsto> Group \<lparr>attrs = [''h5sparse_format'' \<mapsto> StrAttr ''csc'',
                                     ''h5sparse_shape'' \<mapsto> UIntsAttr [3, 5]],
                            members = [''data'', ''indices'', ''indptr'']\<rparr>,
         ''/var'' \<mapsto> DataSet \<lparr>ds_dims = [2],
                                ds_members = [(''index'', StringClass, [''g1'', ''g2''])]\<rparr>,
         ''/obs'' \<mapsto> DataSet \<lparr>ds_dims = [1],
                                ds_members = [(''n'', IntegerClass, [''7'']),
                                              (''index'', StringClass, [''c1''])]\<rparr>]]
     ''b.h5ad'' ''/X'' 8192 1024
   = Inr \<lparr>sm_indices = ''indices'', sm_data = ''data'', sm_indptr = ''indptr'', sm_rows = 3,
          sm_row_names = VecStringReader [''c1''],
          sm_col_names = VecStringReader [''g1'', ''g2'']\<rparr>"
proof
  let ?root = "\<lparr>attrs = Map.empty, members = [''X'', ''var'', ''obs'']\<rparr>"
  let ?g = "\<lparr>attrs = [''encoding-type'' \<mapsto> StrAttr ''csr_matrix'', ''shape'' \<mapsto> UIntsAttr [3, 5]],
            members = [''data'', ''indices'', ''indptr'']\<rparr>"
  let ?f = "[''/'' \<mapsto> Group ?root, ''/X'' \<mapsto> Group ?g,
            ''/var'' \<mapsto> Group \<lparr>attrs = [''_index'' \<mapsto> StrAttr ''gene_ids''], members = [''gene_ids'']\<rparr>,
            ''/obs'' \<mapsto> Group \<lparr>attrs = [''_index'' \<mapsto> StrAttr ''barcodes''], members = [''barcodes'']\<rparr>]"
  have hdr: "anndata_header ?f ''a.h5ad'' ?g
               = Inr (''csr_matrix'', [3, 5], H5StringReader ''a.h5ad'' ''var/gene_ids'',
                      H5StringReader ''a.h5ad'' ''obs/barcodes'')"
    by (simp add: anndata_header_def hasAttribute_def getAttribute_def read_string_def
                  read_uints_def getGroup_def then_do_simps)
  have "openAnnDataMatrix (\<lambda>g name. Inr name) (\<lambda>g name. Inr name) [''a.h5ad'' \<mapsto> ?f]
          ''a.h5ad'' ''/X'' 8192 1024
        = Inr \<lparr>sm_indices = ''indices'', sm_data = ''data'', sm_indptr = ''indptr'',
               sm_rows = [3, 5] ! 1,
               sm_row_names = H5StringReader ''a.h5ad'' ''var/gene_ids'',
               sm_col_names = H5StringReader ''a.h5ad'' ''obs/barcodes''\<rparr>"
    using anndata_csr_is_transposed_view
            [of "[''a.h5ad'' \<mapsto> ?f]" "''a.h5ad''" ?f "''/X''" ?g ?root "''csr_matrix''" "[3, 5]"
                "H5StringReader ''a.h5ad'' ''var/gene_ids''"
                "H5StringReader ''a.h5ad'' ''obs/barcodes''"
                "\<lambda>g name. Inr name" "''indices''" "\<lambda>g name. Inr name" "''data''" "''indptr''"
                8192 1024]
          hdr
    by simp
  then show "openAnnDataMatrix (\<lambda>g name. Inr name) (\<lambda>g name. Inr name) [''a.h5ad'' \<mapsto> ?f]
          ''a.h5ad'' ''/X'' 8192 1024
        = Inr \<lparr>sm_indices = ''indices'', sm_data = ''data'', sm_indptr = ''indptr'', sm_rows = 5,
               sm_row_names = H5StringReader ''a.h5ad'' ''var/gene_ids'',
               sm_col_names = H5StringReader ''a.h5ad'' ''obs/barcodes''\<rparr>"
    by simp
next
  let ?root = "\<lparr>attrs = Map.empty, members = [''X'', ''var'', ''obs'']\<rparr>"
  let ?g = "\<lparr>attrs = [''h5sparse_format'' \<mapsto> StrAttr ''csc'',
                     ''h5sparse_shape'' \<mapsto> UIntsAttr [3, 5]],
            members = [''data'', ''indices'', ''indptr'']\<rparr>"
  let ?f = "[''/'' \<mapsto> Group ?root, ''/X'' \<mapsto> Group ?g,
            ''/var'' \<mapsto> DataSet \<lparr>ds_dims = [2],
                                ds_members = [(''index'', StringClass, [''g1'', ''g2''])]\<rparr>,
            ''/obs'' \<mapsto> DataSet \<lparr>ds_dims = [1],
                                ds_members = [(''n'', IntegerClass, [''7'']),
                                              (''index'', StringClass, [''c1''])]\<rparr>]"
  have hdr: "anndata_header ?f ''b.h5ad'' ?g
               = Inr (''csc_matrix'', [3, 5], VecStringReader [''g1'', ''g2''],
                      VecStringReader [''c1''])"
    by (simp add: anndata_header_def hasAttribute_def getAttribute_def read_string_def
                  read_uints_def getDataSet_def readMember_def then_do_simps)
  have "openAnnDataMatrix (\<lambda>g name. Inr name) (\<lambda>g name. Inr name) [''b.h5ad'' \<mapsto> ?f]
          ''b.h5ad'' ''/X'' 8192 1024
        = Inr \<lparr>sm_indices = ''indices'', sm_data = ''data'', sm_indptr = ''indptr'',
               sm_rows = [3, 5] ! 0,
               sm_row_names = VecStringReader [''c1''],
               sm_col_names = VecStringReader [''g1'', ''g2'']\<rparr>"
    using anndata_csr_is_transposed_view
            [of "[''b.h5ad'' \<mapsto> ?f]" "''b.h5ad''" ?f "''/X''" ?g ?root "''csc_matrix''" "[3, 5]"
                "VecStringReader [''g1'', ''g2'']" "VecStringReader [''c1'']"
                "\<lambda>g name. Inr name" "''indices''" "\<lambda>g name. Inr name" "''data''" "''indptr''"
                8192 1024]
          hdr
    by simp
  then show "openAnnDataMatrix (\<lambda>g name. Inr name) (\<lambda>g name. Inr name) [''b.h5ad'' \<mapsto> ?f]
          ''b.h5ad'' ''/X'' 8192 1024
        = Inr \<lparr>sm_indices = ''indices'', sm_data = ''data'', sm_indptr = ''indptr'', sm_rows = 3,
               sm_row_names = VecStringReader [''c1''],
               sm_col_names = VecStringReader [''g1'', ''g2'']\<rparr>"
    by simp
qed

section \<open>The interrupt hook of the writer\<close>

lemma size_t_mod_1024:
  "((word_of_nat n :: 64 word) mod 1024 = 0) = (n mod 1024 = 0)"
proof -
  have "unat ((word_of_nat n :: 64 word) mod 1024) = (n mod 2 ^ 64) mod 1024"
    by (simp add: unat_mod unat_of_nat)
  also have "\<dots> = n mod 1024"
    by (rule mod_mod_cancel) simp
  finally have "unat ((word_of_nat n :: 64 word) mod 1024) = n mod 1024" .
  then show ?thesis
    by (metis unat_eq_zero)
qed

lemma write_chr_hook:
  fixes hook :: "'h \<Rightarrow> 'e + 'h"
  assumes "counts_with w" and "\<forall>(k, h) \<in> set (calls w). \<exists>h'. hook h = Inr h'"
  shows "case write_chr gzprintf (Some hook) fmt chr_name frs w of
           Inl (err, w') \<Rightarrow>
             counts_with w' \<and> calls w' \<noteq> [] \<and> hook (snd (last (calls w'))) = Inl err \<and>
             fst (last (calls w')) + 1 = n_written w'
         | Inr (ok, w') \<Rightarrow>
             counts_with w' \<and> (\<forall>(k, h) \<in> set (calls w'). \<exists>h'. hook h = Inr h') \<and>
             (ok \<longrightarrow> n_written w' = n_written w + length frs)"
  using assms
proof (induction frs arbitrary: w)
  case Nil
  then show ?case by simp
next
  case (Cons fr frs)
  obtain s e cell_name where fr: "fr = (s, e, cell_name)"
    by (cases fr) auto
  obtain ret z1 where g: "gzprintf (w_file w) fmt chr_name s e cell_name = (ret, z1)"
    by (cases "gzprintf (w_file w) fmt chr_name s e cell_name") auto
  show ?case
  proof (cases "(word_of_int ret :: u32) \<le> 0")
    case True
    with Cons.prems fr g show ?thesis
      by (simp add: counts_with_def)
  next
    case False
    let ?w1 = "w\<lparr>w_file := z1, total_fragments := total_fragments w + 1,
                  n_written := n_written w + 1\<rparr>"
    show ?thesis
    proof (cases "n_written w mod 1024 = 0")
      case due: True
      then have tm: "total_fragments w mod 1024 = 0"
        using Cons.prems(1) by (simp add: counts_with_def size_t_mod_1024)
      show ?thesis
      proof (cases "hook (hook_state w)")
        case (Inl err)
        with Cons.prems fr g False tm due show ?thesis
          by (simp add: counts_with_def)
      next
        case (Inr h1)
        let ?w2 = "?w1\<lparr>hook_state := h1, calls := calls w @ [(n_written w, hook_state w)]\<rparr>"
        have c: "counts_with ?w2"
          using Cons.prems(1) due by (simp add: counts_with_def)
        have r: "\<forall>(k, h) \<in> set (calls ?w2). \<exists>h'. hook h = Inr h'"
          using Cons.prems(2) Inr by auto
        have step: "write_chr gzprintf (Some hook) fmt chr_name (fr # frs) w
                      = write_chr gzprintf (Some hook) fmt chr_name frs ?w2"
          using fr g False tm Inr by simp
        show ?thesis
          using Cons.IH [OF c r] unfolding step
          by (auto split: sum.splits)
      qed
    next
      case notdue: False
      then have tm: "total_fragments w mod 1024 \<noteq> 0"
        using Cons.prems(1) by (simp add: counts_with_def size_t_mod_1024)
      have c: "counts_with ?w1"
        using Cons.prems(1) notdue by (simp add: counts_with_def)
      have r: "\<forall>(k, h) \<in> set (calls ?w1). \<exists>h'. hook h = Inr h'"
        using Cons.prems(2) by simp
      have step: "write_chr gzprintf (Some hook) fmt chr_name (fr # frs) w
                    = write_chr gzprintf (Some hook) fmt chr_name frs ?w1"
        using fr g False tm by simp
      show ?thesis
        using Cons.IH [OF c r] unfolding step
        by (auto split: sum.splits)
    qed
  qed
qed

lemma write_chrs_hook:
  fixes hook :: "'h \<Rightarrow> 'e + 'h"
  assumes "counts_with w" and "\<forall>(k, h) \<in> set (calls w). \<exists>h'. hook h = Inr h'"
  shows "case write_chrs gzprintf (Some hook) fmt fragments w of
           Inl (err, w') \<Rightarrow>
             counts_with w' \<and> calls w' \<noteq> [] \<and> hook (snd (last (calls w'))) = Inl err \<and>
             fst (last (calls w')) + 1 = n_written w'
         | Inr (ok, w') \<Rightarrow>
             counts_with w' \<and> (\<forall>(k, h) \<in> set (calls w'). \<exists>h'. hook h = Inr h') \<and>
             (ok \<longrightarrow> n_written w' = n_written w + length (concat (map snd fragments)))"
  using assms
proof (induction fragments arbitrary: w)
  case Nil
  then show ?case by simp
next
  case (Cons c rest)
  obtain chr_name frs where c: "c = (chr_name, frs)"
    by (cases c) auto
  note one = write_chr_hook [OF Cons.prems, where gzprintf = gzprintf and fmt = fmt and chr_name = chr_name and frs = frs]
  show ?case
  proof (cases "write_chr gzprintf (Some hook) fmt chr_name frs w")
    case (Inl ew)
    with one c show ?thesis
      by (auto split: prod.splits)
  next
    case (Inr r)
    obtain ok w1 where r: "r = (ok, w1)"
      by (cases r) auto
    show ?thesis
    proof (cases ok)
      case False
      with one c Inr r show ?thesis by simp
    next
      case True
      with one Inr r have c1: "counts_with w1"
        and r1: "\<forall>(k, h) \<in> set (calls w1). \<exists>h'. hook h = Inr h'"
        and n1: "n_written w1 = n_written w + length frs"
        by auto
      show ?thesis
        using Cons.IH [OF c1 r1] c Inr r True n1
        by (auto split: sum.splits)
    qed
  qed
qed

lemma schedule_covers:
  assumes "map fst cs = filter (\<lambda>k. k mod 1024 = 0) [0..<n]"
  shows "(0 < n \<longrightarrow> (\<exists>h. (0, h) \<in> set cs)) \<and>
         (\<forall>i. i + 1024 \<le> n \<longrightarrow> (\<exists>k h. (k, h) \<in> set cs \<and> i \<le> k \<and> k < i + 1024))"
proof -
  have mem: "\<exists>h. (k, h) \<in> set cs" if "k < n" "k mod 1024 = 0" for k
  proof -
    from that have "k \<in> set (map fst cs)"
      by (simp add: assms)
    then show ?thesis by auto
  qed
  show ?thesis
  proof (intro conjI allI impI)
    assume "0 < n"
    then show "\<exists>h. (0, h) \<in> set cs"
      using mem [of 0] by simp
  next
    fix i :: nat
    assume i: "i + 1024 \<le> n"
    define a where "a = i + 1023"
    define k where "k = (a div 1024) * 1024"
    have eq: "k + a mod 1024 = a"
      unfolding k_def using div_mult_mod_eq [of a 1024] by simp
    have lt: "a mod 1024 < 1024"
      by simp
    have k0: "k mod 1024 = 0"
      unfolding k_def by simp
    have lo: "i \<le> k" and hi: "k < i + 1024"
      using eq lt unfolding a_def by linarith+
    from hi i have "k < n"
      by linarith
    from mem [OF this k0] lo hi show "\<exists>k h. (k, h) \<in> set cs \<and> i \<le> k \<and> k < i + 1024"
      by blast
  qed
qed

lemma write_chr_completes:
  fixes hook :: "'h \<Rightarrow> 'e + 'h"
  assumes "\<forall>z fmt c s e n. 0 < (word_of_int (fst (gzprintf z fmt c s e n)) :: u32)"
    and "\<forall>h. \<exists>h'. hook h = Inr h'"
  shows "\<exists>w'. write_chr gzprintf (Some hook) fmt chr_name frs w = Inr (True, w')"
proof (induction frs arbitrary: w)
  case Nil
  show ?case by simp
next
  case (Cons fr frs)
  obtain s e cell_name where fr: "fr = (s, e, cell_name)"
    by (cases fr) auto
  obtain ret z1 where g: "gzprintf (w_file w) fmt chr_name s e cell_name = (ret, z1)"
    by (cases "gzprintf (w_file w) fmt chr_name s e cell_name") auto
  have pos: "\<not> (word_of_int ret :: u32) \<le> 0"
    using assms(1) [rule_format, of "w_file w" fmt chr_name s e cell_name] g
    by (simp add: word_greater_zero_iff)
  obtain h1 where h1: "hook (hook_state w) = Inr h1"
    using assms(2) by blast
  show ?case
    using fr g pos h1 Cons.IH by (simp add: Let_def)
qed

lemma write_chrs_completes:
  fixes hook :: "'h \<Rightarrow> 'e + 'h"
  assumes "\<forall>z fmt c s e n. 0 < (word_of_int (fst (gzprintf z fmt c s e n)) :: u32)"
    and "\<forall>h. \<exists>h'. hook h = Inr h'"
  shows "\<exists>w'. write_chrs gzprintf (Some hook) fmt fragments w = Inr (True, w')"
proof (induction fragments arbitrary: w)
  case Nil
  show ?case by simp
next
  case (Cons c rest)
  obtain chr_name frs where c: "c = (chr_name, frs)"
    by (cases c) auto
  obtain w1 where "write_chr gzprintf (Some hook) fmt chr_name frs w = Inr (True, w1)"
    using write_chr_completes [OF assms] by blast
  then show ?case
    using c Cons.IH by simp
qed

text \<open>C9.  \<^verbatim>\<open>BedFragmentsWriter::write\<close> with a hook that is not \<^verbatim>\<open>NULL\<close>, for every
  source of fragments, every behaviour of \<^verbatim>\<open>gzprintf\<close> and every hook: the hook is called
  exactly at the printed fragments number 0, 1024, 2048, ...; so it is called at the first
  fragment, and every 1024 consecutive printed fragments contain a call.  When \<^verbatim>\<open>write\<close>
  ends with an error, the error is the one the hook raised at its last call, right after
  the last fragment printed; when \<^verbatim>\<open>write\<close> returns, every call of the hook returned, and
  a result \<^verbatim>\<open>true\<close> means that all fragments were printed.\<close>

theorem interrupt_hook_schedule:
  fixes hook :: "'h \<Rightarrow> 'e + 'h"
  shows
  "(let w = final_writer (BedFragmentsWriter_write gzprintf append_col fragments (Some hook) f h) in
      map fst (calls w) = filter (\<lambda>k. k mod 1024 = 0) [0..<n_written w] \<and>
      (0 < n_written w \<longrightarrow> (\<exists>h'. (0, h') \<in> set (calls w))) \<and>
      (\<forall>i. i + 1024 \<le> n_written w \<longrightarrow>
           (\<exists>k h'. (k, h') \<in> set (calls w) \<and> i \<le> k \<and> k < i + 1024))) \<and>
   (case BedFragmentsWriter_write gzprintf append_col fragments (Some hook) f h of
      Inl (err, w) \<Rightarrow>
        calls w \<noteq> [] \<and> hook (snd (last (calls w))) = Inl err \<and>
        fst (last (calls w)) + 1 = n_written w
    | Inr (ok, w) \<Rightarrow>
        (\<forall>(k, h') \<in> set (calls w). \<exists>h''. hook h' = Inr h'') \<and>
        (ok \<longrightarrow> n_written w = length (concat (map snd fragments))))"
proof -
  let ?w0 = "\<lparr>w_file = f, hook_state = h, total_fragments = 0, n_written = 0, calls = []\<rparr>"
  have c0: "counts_with ?w0"
    by (simp add: counts_with_def)
  have r0: "\<forall>(k, h') \<in> set (calls ?w0). \<exists>h''. hook h' = Inr h''"
    by simp
  note run = write_chrs_hook [OF c0 r0, where gzprintf = gzprintf and fmt = "output_format append_col" and fragments = fragments]
  let ?r = "BedFragmentsWriter_write gzprintf append_col fragments (Some hook) f h"
  have r_def: "?r = write_chrs gzprintf (Some hook) (output_format append_col) fragments ?w0"
    by (simp add: BedFragmentsWriter_write_def)
  have cw: "counts_with (final_writer ?r)"
    using run unfolding r_def final_writer_def by (auto split: sum.splits)
  then have sched: "map fst (calls (final_writer ?r))
                      = filter (\<lambda>k. k mod 1024 = 0) [0..<n_written (final_writer ?r)]"
    by (simp add: counts_with_def)
  have second: "case ?r of
      Inl (err, w) \<Rightarrow>
        calls w \<noteq> [] \<and> hook (snd (last (calls w))) = Inl err \<and>
        fst (last (calls w)) + 1 = n_written w
    | Inr (ok, w) \<Rightarrow>
        (\<forall>(k, h) \<in> set (calls w). \<exists>h'. hook h = Inr h') \<and>
        (ok \<longrightarrow> n_written w = length (concat (map snd fragments)))"
    using run unfolding r_def by (auto split: sum.splits)
  show ?thesis
    using sched schedule_covers [OF sched] second
    by (simp add: Let_def)
qed

theorem interrupt_hook_schedule_witness:
  "(let w = final_writer
              (BedFragmentsWriter_write (\<lambda>z fmt c s e n. (12, z)) False
                 [(''chr1'', replicate 1000 (5, 9, ''A'')), (''chr2'', replicate 30 (7, 8, ''B''))]
                 (Some (\<lambda>h. Inr (Suc h) :: string + nat)) () 0)
    in (\<exists>h. (0, h) \<in> set (calls w)) \<and>
       (\<exists>k h. (k, h) \<in> set (calls w) \<and> 3 \<le> k \<and> k < 3 + 1024)) \<and>
   (case BedFragmentsWriter_write (\<lambda>z fmt c s e n. (12, z)) False
           [(''chr1'', [(5, 9, ''A''), (6, 9, ''B'')])]
           (Some (\<lambda>h. if h = 0 then Inl ''Cancelled'' else Inr h)) () (0::nat) of
      Inl (err, w) \<Rightarrow> err = ''Cancelled''
    | Inr (ok, w) \<Rightarrow> False)"
proof
  let ?frs = "[(''chr1'', replicate 1000 (5, 9, ''A'')), (''chr2'', replicate 30 (7, 8, ''B''))]"
  let ?run = "BedFragmentsWriter_write (\<lambda>z fmt c s e n. (12, z)) False ?frs
                 (Some (\<lambda>h. Inr (Suc h) :: string + nat)) () 0"
  note sched = interrupt_hook_schedule
            [where gzprintf = "\<lambda>z fmt c s e n. (12, z)" and append_col = False
               and fragments = ?frs
               and hook = "\<lambda>h. Inr (Suc h) :: string + nat" and f = "()" and h = 0]
  obtain w' where r: "?run = Inr (True, w')"
    unfolding BedFragmentsWriter_write_def
    using write_chrs_completes
            [where gzprintf = "\<lambda>z fmt c s e n. (12, z)"
               and hook = "\<lambda>h. Inr (Suc h) :: string + nat"]
    by fastforce
  have n: "n_written (final_writer ?run) = 1030"
    using sched unfolding r by (simp add: final_writer_def)
  have first: "0 < n_written (final_writer ?run) \<longrightarrow> (\<exists>h'. (0, h') \<in> set (calls (final_writer ?run)))"
    and every: "\<forall>i. i + 1024 \<le> n_written (final_writer ?run) \<longrightarrow>
                  (\<exists>k h'. (k, h') \<in> set (calls (final_writer ?run)) \<and> i \<le> k \<and> k < i + 1024)"
    using sched by (simp_all add: Let_def)
  from every have "3 + 1024 \<le> n_written (final_writer ?run) \<longrightarrow>
                  (\<exists>k h'. (k, h') \<in> set (calls (final_writer ?run)) \<and> 3 \<le> k \<and> k < 3 + 1024)"
    by (rule spec)
  with first n show "let w = final_writer ?run
        in (\<exists>h. (0, h) \<in> set (calls w)) \<and>
           (\<exists>k h. (k, h) \<in> set (calls w) \<and> 3 \<le> k \<and> k < 3 + 1024)"
    by (simp add: Let_def)
next
  let ?hook = "\<lambda>h::nat. if h = 0 then Inl ''Cancelled'' else Inr h"
  let ?run = "BedFragmentsWriter_write (\<lambda>z fmt c s e n. (12, z)) False
           [(''chr1'', [(5, 9, ''A''), (6, 9, ''B'')])] (Some ?hook) () (0::nat)"
  have "case ?run of Inl ew \<Rightarrow> True | Inr r \<Rightarrow> False"
    by code_simp
  then obtain err w where r: "?run = Inl (err, w)"
    by (cases ?run) auto
  have "?hook (snd (last (calls w))) = Inl err"
    using interrupt_hook_schedule
            [where gzprintf = "\<lambda>z fmt c s e n. (12, z)" and append_col = False
               and fragments = "[(''chr1'', [(5, 9, ''A''), (6, 9, ''B'')])]"
               and hook = ?hook and f = "()" and h = 0]
    unfolding r by simp
  then have "err = ''Cancelled''"
    by (auto split: if_splits)
  with r show "case ?run of Inl (err, w) \<Rightarrow> err = ''Cancelled'' | Inr (ok, w) \<Rightarrow> False"
    by simp
qed

section \<open>Concatenation is stacking\<close>

lemma map_of_shifted:
  fixes xs :: "(nat \<times> 'v) list"
  shows "map_of (map (\<lambda>(r, v). (r + offset, v)) xs) k
           = (if offset \<le> k then map_of xs (k - offset) else None)"
  by (induction xs) auto

lemma map_of_below:
  fixes xs :: "(nat \<times> 'v) list"
  shows "list_all (\<lambda>(r, v). r < n) xs \<Longrightarrow> n \<le> k \<Longrightarrow> map_of xs k = None"
  by (induction xs) auto

lemma upt_split_shift:
  "[0..<a + b] = [0..<a] @ map (\<lambda>i. a + i) [0..<b]"
proof -
  have "[0..<a + b] = [0..<a] @ [a..<a + b]"
    using upt_add_eq_append [of 0 a b] by simp
  moreover have "map (\<lambda>i. a + i) [0..<b] = [a..<a + b]"
    using map_add_upt [of a b] by (simp add: add.commute)
  ultimately show ?thesis by simp
qed

lemma rows_entry_upper:
  assumes "j < m_cols a" "m_cols b = m_cols a" "i < m_rows a"
  shows "entry \<lparr>m_rows = n, m_cols = c,
                 m_columns = map (\<lambda>j. stack_column j 0 [a, b]) [0..<m_cols a]\<rparr> i j
         = entry a i j"
  using assms
  by (simp add: entry_def map_of_append map_of_shifted map_add_def split: option.splits)

lemma rows_entry_lower:
  assumes "matrix_ok a" "j < m_cols a" "m_cols b = m_cols a"
  shows "entry \<lparr>m_rows = n, m_cols = c,
                 m_columns = map (\<lambda>j. stack_column j 0 [a, b]) [0..<m_cols a]\<rparr> (m_rows a + i) j
         = entry b i j"
proof -
  from assms have "list_all (\<lambda>(r, v). r < m_rows a) (m_columns a ! j)"
    by (simp add: matrix_ok_def list_all_length)
  then have "map_of (m_columns a ! j) (m_rows a + i) = None"
    by (rule map_of_below) simp
  with assms show ?thesis
    by (simp add: entry_def map_of_append map_of_shifted map_add_def split: option.splits)
qed

lemma dense_ConcatRows:
  assumes "matrix_ok a" "m_cols b = m_cols a"
  shows "ConcatRows [a, b]
           = Inr \<lparr>m_rows = m_rows a + m_rows b, m_cols = m_cols a,
                  m_columns = map (\<lambda>j. stack_column j 0 [a, b]) [0..<m_cols a]\<rparr>"
    and "dense \<lparr>m_rows = m_rows a + m_rows b, m_cols = m_cols a,
                 m_columns = map (\<lambda>j. stack_column j 0 [a, b]) [0..<m_cols a]\<rparr>
           = vstack (dense a) (dense b)"
proof -
  show "ConcatRows [a, b]
           = Inr \<lparr>m_rows = m_rows a + m_rows b, m_cols = m_cols a,
                  m_columns = map (\<lambda>j. stack_column j 0 [a, b]) [0..<m_cols a]\<rparr>"
    using assms by (simp add: ConcatRows_def)
  let ?m = "\<lparr>m_rows = m_rows a + m_rows b, m_cols = m_cols a,
             m_columns = map (\<lambda>j. stack_column j 0 [a, b]) [0..<m_cols a]\<rparr>"
  have split: "[0..<m_rows a + m_rows b] = [0..<m_rows a] @ map (\<lambda>i. m_rows a + i) [0..<m_rows b]"
    by (rule upt_split_shift)
  have upper: "map (\<lambda>i. map (entry ?m i) [0..<m_cols a]) [0..<m_rows a]
                 = map (\<lambda>i. map (entry a i) [0..<m_cols a]) [0..<m_rows a]"
    using assms by (simp add: rows_entry_upper del: stack_column.simps)
  have lower: "map (\<lambda>i. map (entry ?m (m_rows a + i)) [0..<m_cols a]) [0..<m_rows b]
                 = map (\<lambda>i. map (entry b i) [0..<m_cols a]) [0..<m_rows b]"
    using assms by (simp add: rows_entry_lower del: stack_column.simps)
  show "dense ?m = vstack (dense a) (dense b)"
    using upper lower assms(2)
    by (simp add: dense_def vstack_def split comp_def del: stack_column.simps)
qed

lemma cols_entry_left:
  assumes "matrix_ok a" "j < m_cols a"
  shows "entry \<lparr>m_rows = n, m_cols = c, m_columns = m_columns a @ m_columns b\<rparr> i j = entry a i j"
  using assms by (simp add: entry_def matrix_ok_def nth_append)

lemma cols_entry_right:
  assumes "matrix_ok a"
  shows "entry \<lparr>m_rows = n, m_cols = c, m_columns = m_columns a @ m_columns b\<rparr> i (m_cols a + j)
           = entry b i j"
  using assms by (simp add: entry_def matrix_ok_def nth_append)

lemma zip_same_index:
  "zip (map f xs) (map g xs) = map (\<lambda>x. (f x, g x)) xs"
  by (induction xs) auto

lemma dense_ConcatCols:
  assumes "matrix_ok a" "m_rows b = m_rows a"
  shows "ConcatCols [a, b]
           = Inr \<lparr>m_rows = m_rows a, m_cols = m_cols a + m_cols b,
                  m_columns = m_columns a @ m_columns b\<rparr>"
    and "dense \<lparr>m_rows = m_rows a, m_cols = m_cols a + m_cols b,
                 m_columns = m_columns a @ m_columns b\<rparr>
           = hstack (dense a) (dense b)"
proof -
  show "ConcatCols [a, b]
           = Inr \<lparr>m_rows = m_rows a, m_cols = m_cols a + m_cols b,
                  m_columns = m_columns a @ m_columns b\<rparr>"
    using assms by (simp add: ConcatCols_def)
  let ?m = "\<lparr>m_rows = m_rows a, m_cols = m_cols a + m_cols b,
             m_columns = m_columns a @ m_columns b\<rparr>"
  have split: "[0..<m_cols a + m_cols b] = [0..<m_cols a] @ map (\<lambda>j. m_cols a + j) [0..<m_cols b]"
    by (rule upt_split_shift)
  have row: "map (entry ?m i) [0..<m_cols a + m_cols b]
               = map (entry a i) [0..<m_cols a] @ map (entry b i) [0..<m_cols b]" for i
    using assms(1) by (simp add: split cols_entry_left cols_entry_right comp_def)
  show "dense ?m = hstack (dense a) (dense b)"
    using assms(2) by (simp add: dense_def hstack_def row zip_same_index)
qed

text \<open>C6.  For every two matrices \<open>a\<close> and \<open>b\<close> as loaders present them: with equal
  column counts \<^verbatim>\<open>ConcatRows\<close> of the two is constructed and its dense form is the dense
  form of \<open>a\<close> with the rows of \<open>b\<close> below it, and with different column counts the
  construction is rejected; with equal row counts \<^verbatim>\<open>ConcatCols\<close> of the two is constructed
  and its dense form has each row of \<open>b\<close> to the right of the same row of \<open>a\<close>, and
  with different row counts the construction is rejected.\<close>

theorem concat_is_stacking:
  fixes a b :: "'v::zero sparse_matrix"
  assumes "matrix_ok a" and "matrix_ok b"
  shows
    "(m_cols a = m_cols b \<longrightarrow>
        (\<exists>m. ConcatRows [a, b] = Inr m \<and> dense m = vstack (dense a) (dense b))) \<and>
     (m_cols a \<noteq> m_cols b \<longrightarrow> ConcatRows [a, b] = Inl ShapeError) \<and>
     (m_rows a = m_rows b \<longrightarrow>
        (\<exists>m. ConcatCols [a, b] = Inr m \<and> dense m = hstack (dense a) (dense b))) \<and>
     (m_rows a \<noteq> m_rows b \<longrightarrow> ConcatCols [a, b] = Inl ShapeError)"
proof (intro conjI impI)
  assume "m_cols a = m_cols b"
  then have "m_cols b = m_cols a" by simp
  from dense_ConcatRows [OF assms(1) this]
  show "\<exists>m. ConcatRows [a, b] = Inr m \<and> dense m = vstack (dense a) (dense b)"
    by blast
next
  assume "m_cols a \<noteq> m_cols b"
  then show "ConcatRows [a, b] = Inl ShapeError"
    by (auto simp: ConcatRows_def)
next
  assume "m_rows a = m_rows b"
  then have "m_rows b = m_rows a" by simp
  from dense_ConcatCols [OF assms(1) this]
  show "\<exists>m. ConcatCols [a, b] = Inr m \<and> dense m = hstack (dense a) (dense b)"
    by blast
next
  assume "m_rows a \<noteq> m_rows b"
  then show "ConcatCols [a, b] = Inl ShapeError"
    by (auto simp: ConcatCols_def)
qed

theorem concat_is_stacking_witness:
  "(\<exists>m. ConcatRows [\<lparr>m_rows = 2, m_cols = 2, m_columns = [[(0, 5), (1, 7)], [(1, 3)]]\<rparr>,
                    \<lparr>m_rows = 1, m_cols = 2, m_columns = [[(0, 9)], []]\<rparr>] = Inr m \<and>
        dense m = [[5, 0], [7, 3], [9, 0 :: int]]) \<and>
   ConcatRows [\<lparr>m_rows = 2, m_cols = 2, m_columns = [[(0, 5), (1, 7)], [(1, 3)]]\<rparr>,
               \<lparr>m_rows = 2, m_cols = 3, m_columns = [[(0, 1 :: int)], [], [(1, 2)]]\<rparr>]
     = Inl ShapeError \<and>
   (\<exists>m. ConcatCols [\<lparr>m_rows = 2, m_cols = 2, m_columns = [[(0, 5), (1, 7)], [(1, 3)]]\<rparr>,
                    \<lparr>m_rows = 2, m_cols = 3, m_columns = [[(0, 1)], [], [(1, 2)]]\<rparr>] = Inr m \<and>
        dense m = [[5, 0, 1, 0, 0], [7, 3, 0, 0, 2 :: int]]) \<and>
   ConcatCols [\<lparr>m_rows = 2, m_cols = 2, m_columns = [[(0, 5), (1, 7)], [(1, 3)]]\<rparr>,
               \<lparr>m_rows = 1, m_cols = 2, m_columns = [[(0, 9 :: int)], []]\<rparr>]
     = Inl ShapeError"
proof -
  let ?a = "\<lparr>m_rows = 2, m_cols = 2, m_columns = [[(0, 5), (1, 7 :: int)], [(1, 3)]]\<rparr>"
  let ?b = "\<lparr>m_rows = 1, m_cols = 2, m_columns = [[(0, 9 :: int)], []]\<rparr>"
  let ?c = "\<lparr>m_rows = 2, m_cols = 3, m_columns = [[(0, 1 :: int)], [], [(1, 2)]]\<rparr>"
  have ok: "matrix_ok ?a" "matrix_ok ?b" "matrix_ok ?c"
    by (simp_all add: matrix_ok_def)
  have da: "dense ?a = [[5, 0], [7, 3]]"
    and db: "dense ?b = [[9, 0]]"
    and dc: "dense ?c = [[1, 0, 0], [0, 0, 2]]"
    by code_simp+
  note ab = concat_is_stacking [OF ok(1) ok(2)]
  note ac = concat_is_stacking [OF ok(1) ok(3)]
  have "m_cols ?a = m_cols ?b"
    by simp
  with ab have "\<exists>m. ConcatRows [?a, ?b] = Inr m \<and> dense m = vstack (dense ?a) (dense ?b)"
    by blast
  then have 1: "\<exists>m. ConcatRows [?a, ?b] = Inr m \<and> dense m = [[5, 0], [7, 3], [9, 0]]"
    unfolding da db vstack_def by simp
  have "m_cols ?a \<noteq> m_cols ?c"
    by simp
  with ac have 2: "ConcatRows [?a, ?c] = Inl ShapeError"
    by blast
  have "m_rows ?a = m_rows ?c"
    by simp
  with ac have "\<exists>m. ConcatCols [?a, ?c] = Inr m \<and> dense m = hstack (dense ?a) (dense ?c)"
    by blast
  then have 3: "\<exists>m. ConcatCols [?a, ?c] = Inr m \<and> dense m = [[5, 0, 1, 0, 0], [7, 3, 0, 0, 2]]"
    unfolding da dc hstack_def by simp
  have "m_rows ?a \<noteq> m_rows ?b"
    by simp
  with ab have 4: "ConcatCols [?a, ?b] = Inl ShapeError"
    by blast
  from 1 2 3 4 show ?thesis
    by blast
qed

section \<open>The peak and tile fixtures\<close>

text \<open>C1.  For the fixture of \<^verbatim>\<open>TEST(PeakMatrix, PeakMatrix)\<close> the peak matrix has 5 rows and
  4 columns, and its entries \<open>(row = cell, column = peak, count)\<close>, in the order of
  delivery, are the twelve triples the test expects; as a set they are the set of the
  specification.  Each count is the sum over the cell's fragments \<open>(s, e)\<close> of
  \<open>I[p.start \<le> s < p.end] + I[p.start \<le> e - 1 < p.end]\<close>.\<close>

theorem peak_matrix_fixture:
  "m_rows peak_test_matrix = 5 \<and> m_cols peak_test_matrix = 4 \<and>
   triplets peak_test_matrix =
     [(0, 0, 2), (1, 0, 4), (2, 0, 6), (3, 0, 4),
      (1, 1, 8), (2, 1, 9), (3, 1, 8),
      (3, 2, 8), (4, 2, 5),
      (1, 3, 1), (2, 3, 1), (3, 3, 2)] \<and>
   set (triplets peak_test_matrix) =
     {(0, 0, 2), (1, 0, 4), (2, 0, 6), (3, 0, 4), (1, 1, 8), (2, 1, 9), (3, 1, 8),
      (3, 2, 8), (4, 2, 5), (1, 3, 1), (2, 3, 1), (3, 3, 2)}"
proof -
  have shape: "m_rows peak_test_matrix = 5 \<and> m_cols peak_test_matrix = 4"
    by (simp add: peak_test_matrix_def PeakMatrix_def)
  have entries: "triplets peak_test_matrix =
     [(0, 0, 2), (1, 0, 4), (2, 0, 6), (3, 0, 4),
      (1, 1, 8), (2, 1, 9), (3, 1, 8),
      (3, 2, 8), (4, 2, 5),
      (1, 3, 1), (2, 3, 1), (3, 3, 2)]"
    by code_simp
  show ?thesis
    using shape by (simp add: entries)
qed

text \<open>C2.  For the fixture of \<^verbatim>\<open>TEST(PeakMatrix, TileMatrix)\<close> the four regions give nine
  tiles, laid out region after region, tile \<open>j\<close> of a region covering
  \<open>[start + j * w, min (start + (j + 1) * w) end)\<close>; the tile matrix has 5 rows and 9
  columns, and its entries \<open>(row, column, count)\<close>, in the order of delivery, are the
  sixteen triples the test expects; as a set they are the set of the specification.\<close>

theorem tile_matrix_fixture:
  "concat (map (\<lambda>(c, s, e, w). tiles_of_region c s e w)
               (zip [0, 0, 0, 1] (zip [10, 30, 50, 70] (zip [20, 40, 60, 80] [5, 3, 5, 12]))))
     = [(0, 10, 15), (0, 15, 20), (0, 30, 33), (0, 33, 36), (0, 36, 39), (0, 39, 40),
        (0, 50, 55), (0, 55, 60), (1, 70, 80)] \<and>
   m_rows tile_test_matrix = 5 \<and> m_cols tile_test_matrix = 9 \<and>
   triplets tile_test_matrix =
     [(1, 0, 1), (2, 0, 10), (2, 1, 35), (2, 2, 9), (3, 2, 12), (2, 3, 18), (3, 3, 21),
      (2, 4, 27), (3, 4, 30), (2, 5, 11), (3, 5, 12), (3, 6, 25), (3, 7, 50),
      (1, 8, 1), (2, 8, 1), (3, 8, 2)] \<and>
   set (triplets tile_test_matrix) =
     {(1, 0, 1), (2, 0, 10), (2, 1, 35), (2, 2, 9), (3, 2, 12), (2, 3, 18), (3, 3, 21),
      (2, 4, 27), (3, 4, 30), (2, 5, 11), (3, 5, 12), (3, 6, 25), (3, 7, 50),
      (1, 8, 1), (2, 8, 1), (3, 8, 2)}"
proof -
  have tiles: "concat (map (\<lambda>(c, s, e, w). tiles_of_region c s e w)
               (zip [0, 0, 0, 1] (zip [10, 30, 50, 70] (zip [20, 40, 60, 80] [5, 3, 5, 12]))))
     = [(0, 10, 15), (0, 15, 20), (0, 30, 33), (0, 33, 36), (0, 36, 39), (0, 39, 40),
        (0, 50, 55), (0, 55, 60), (1, 70, 80)]"
    by code_simp
  have shape: "m_rows tile_test_matrix = 5 \<and> m_cols tile_test_matrix = 9"
    unfolding tile_test_matrix_def TileMatrix_def Let_def tiles by simp
  have entries: "triplets tile_test_matrix =
     [(1, 0, 1), (2, 0, 10), (2, 1, 35), (2, 2, 9), (3, 2, 12), (2, 3, 18), (3, 3, 21),
      (2, 4, 27), (3, 4, 30), (2, 5, 11), (3, 5, 12), (3, 6, 25), (3, 7, 50),
      (1, 8, 1), (2, 8, 1), (3, 8, 2)]"
    by code_simp
  show ?thesis
    using tiles shape by (simp add: entries)
qed

section \<open>The reader on well-formed lines\<close>





lemma interned_fields [simp]:
  "gz_lines (interned st b) = gz_lines st"
  "gz_broken (interned st b) = gz_broken st"
  "line_buf (interned st b) = line_buf st"
  "eof (interned st b) = eof st"
  "chr_names (interned st b) = chr_names st"
  "chr_lookup (interned st b) = chr_lookup st"
  "next_chr_id (interned st b) = next_chr_id st"
  "current_chr (interned st b) = current_chr st"
  "comment (interned st b) = comment st"
  "last_start (interned st b) = last_start st"
  by (simp_all add: interned_def split: option.splits)


lemma TAB_facts [simp]: "is_sep TAB" "\<not> isdigit TAB" "peek (TAB # s) = TAB"
  by (simp_all add: is_sep_def isdigit_def peek_def TAB_def)


lemma frame_refl [simp]: "frame st st"
  by (simp add: frame_def)







declare load_loop.simps [simp del] nextChr_loop.simps [simp del] skip_comments.simps [simp del]


lemma in_pos_At_last_start [simp]:
  "in_pos (st\<lparr>last_start := x\<rparr>) (At r rs) = in_pos st (At r rs)"
  by (simp add: in_pos_def)

















lemma verdict_same_chr:
  "list_all (\<lambda>r. dl_chrom r = c) ds \<Longrightarrow> ds \<noteq> [] \<Longrightarrow> dl_chrom (hd ds) = c"
  by (cases ds) auto





lemma starts_sorted_tail: "starts_sorted (r # rs) \<Longrightarrow> starts_sorted rs"
  by (cases rs) simp_all



lemma distinct_remdups_adj_Cons:
  "distinct (remdups_adj (x # ys)) \<longleftrightarrow>
     (case ys of [] \<Rightarrow> True
      | y # ys' \<Rightarrow> if x = y then distinct (remdups_adj ys)
                   else x \<notin> set ys \<and> distinct (remdups_adj ys))"
  by (cases ys) auto






section \<open>Reading a fragment file from its first line to its last\<close>



section \<open>Files that are not sorted\<close>



end
